theory Spec2Isabelle
  imports Main "HOL-Library.Word" "HOL-Library.Monad_Syntax"
begin

section \<open>Bytes and Go slices\<close>

text \<open>
  The handshake core of \<^verbatim>\<open>internal/server/TLS.go\<close> works on Go byte slices. A Go
  slice is a window on a backing array: it has a length and a capacity, and a slice
  expression \<^verbatim>\<open>s[lo:hi]\<close> is checked against the capacity, not the length. The model
  keeps both: \<open>vis\<close> holds the bytes below the length, \<open>spare\<close> the bytes of the
  backing array between the length and the capacity. Every operation that panics in Go
  returns \<open>None\<close> here.
\<close>

type_synonym byte = "8 word"

datatype slice = Slice (vis: "byte list") (spare: "byte list")

definition slice_len :: "slice \<Rightarrow> nat" where
  "slice_len s = length (vis s)"

definition slice_cap :: "slice \<Rightarrow> nat" where
  "slice_cap s = length (vis s) + length (spare s)"

definition backing :: "slice \<Rightarrow> byte list" where
  "backing s = vis s @ spare s"

text \<open>The nil slice: length and capacity 0.\<close>

definition nil_slice :: slice where
  "nil_slice = Slice [] []"

text \<open>\<^verbatim>\<open>s[lo:hi]\<close>: panics unless \<open>lo \<le> hi \<le> cap(s)\<close>.\<close>

definition reslice :: "slice \<Rightarrow> nat \<Rightarrow> nat \<Rightarrow> slice option" where
  "reslice s lo hi =
     (if lo \<le> hi \<and> hi \<le> slice_cap s
      then Some (Slice (take (hi - lo) (drop lo (backing s))) (drop hi (backing s)))
      else None)"

text \<open>\<^verbatim>\<open>s[lo:]\<close>: the upper bound defaults to \<open>len(s)\<close>; panics unless \<open>lo \<le> len(s)\<close>.\<close>

definition reslice_from :: "slice \<Rightarrow> nat \<Rightarrow> slice option" where
  "reslice_from s lo =
     (if lo \<le> slice_len s then Some (Slice (drop lo (vis s)) (spare s)) else None)"

text \<open>\<^verbatim>\<open>s[i]\<close>: panics unless \<open>i < len(s)\<close>.\<close>

definition index :: "slice \<Rightarrow> nat \<Rightarrow> byte option" where
  "index s i = (if i < slice_len s then Some (vis s ! i) else None)"

text \<open>\<^verbatim>\<open>make([]byte, n)\<close> for \<open>n \<ge> 0\<close>, and \<^verbatim>\<open>copy(dst, src)\<close>, which copies
  \<open>min(len(dst), len(src))\<close> bytes.\<close>

definition make_bytes :: "nat \<Rightarrow> slice" where
  "make_bytes n = Slice (replicate n 0) []"

definition copy_slice :: "slice \<Rightarrow> slice \<Rightarrow> slice" where
  "copy_slice dst src =
     Slice (take (slice_len dst) (vis src) @ drop (slice_len src) (vis dst)) (spare dst)"

text \<open>\<^verbatim>\<open>binary.BigEndian.Uint16\<close> and \<^verbatim>\<open>Uint32\<close>: they index the last byte they
  need first, so a shorter argument panics.\<close>

definition u16 :: "byte list \<Rightarrow> nat option" where
  "u16 b = (if length b < 2 then None else Some (unat (b ! 0) * 256 + unat (b ! 1)))"

definition u32 :: "byte list \<Rightarrow> nat option" where
  "u32 b =
     (if length b < 4 then None
      else Some (unat (b ! 0) * 16777216 + unat (b ! 1) * 65536 + unat (b ! 2) * 256 + unat (b ! 3)))"

section \<open>Errors\<close>

text \<open>
  One constructor for each error value the file creates or names. \<open>ErrInvalidPubKey\<close>
  and \<open>ErrCiphertextLength\<close> are declared elsewhere in the package, the latter is
  wrapped with the offending length. \<open>CollaboratorError\<close> stands for an error produced
  by a collaborator (the AEAD primitive, the authentication service, the transport).
\<close>

datatype error =
    WrongMagic
  | NotClientHello
  | LengthMismatch
  | MalformedClientHello
  | MalformedExtensions
  | MalformedKeyShare
  | KeyShareLength nat
  | NoX25519
  | ErrBadClientHello
  | ErrNotCloak
  | ErrReplay
  | ErrBadProxyMethod
  | ErrInvalidPubKey
  | ErrCiphertextLength nat
  | CollaboratorError string

section \<open>The ClientHello and its decoder\<close>

type_synonym ext_map = "(byte \<times> byte) \<rightharpoonup> slice"

record ClientHello =
  handshakeType :: byte
  length' :: nat
  clientVersion :: slice
  random' :: slice
  sessionIdLen :: nat
  sessionId :: slice
  cipherSuitesLen :: nat
  cipherSuites :: slice
  compressionMethodsLen :: nat
  compressionMethods :: slice
  extensionsLen :: nat
  extensions :: ext_map

text \<open>
  The loop of \<^verbatim>\<open>parseExtensions\<close>. It returns the map built so far and whether a
  slice expression panicked: the deferred \<^verbatim>\<open>recover\<close> of the source keeps the named
  result \<^verbatim>\<open>ret\<close> as it was when the panic happened.
\<close>

function parseExtensions_loop :: "slice \<Rightarrow> nat \<Rightarrow> ext_map \<Rightarrow> ext_map \<times> bool" where
  "parseExtensions_loop input pointer ret =
     (if pointer < slice_len input then
        (case reslice input pointer (pointer + 2) of
           None \<Rightarrow> (ret, True)
         | Some typ \<Rightarrow>
             (case reslice input (pointer + 2) (pointer + 2 + 2) of
                None \<Rightarrow> (ret, True)
              | Some l \<Rightarrow>
                  (case u16 (vis l) of
                     None \<Rightarrow> (ret, True)
                   | Some len \<Rightarrow>
                       (case reslice input (pointer + 2 + 2) (pointer + 2 + 2 + len) of
                          None \<Rightarrow> (ret, True)
                        | Some data \<Rightarrow>
                            parseExtensions_loop input (pointer + 2 + 2 + len)
                              (ret((vis typ ! 0, vis typ ! 1) \<mapsto> data))))))
      else (ret, False))"
  by pat_completeness auto
termination
  by (relation "measure (\<lambda>(input, pointer, ret). slice_len input - pointer)") auto

definition parseExtensions :: "slice \<Rightarrow> ext_map \<times> error option" where
  "parseExtensions input =
     (case parseExtensions_loop input 0 Map.empty of
        (ret, panicked) \<Rightarrow> (ret, if panicked then Some MalformedExtensions else None))"

text \<open>
  The loop of \<^verbatim>\<open>parseKeyShare\<close>; \<open>None\<close> is a panic, which the deferred
  \<^verbatim>\<open>recover\<close> turns into the "malformed key\_share" error with a nil result.
\<close>

function parseKeyShare_loop ::
  "slice \<Rightarrow> nat \<Rightarrow> nat \<Rightarrow> (slice \<times> error option) option" where
  "parseKeyShare_loop input totalLen pointer =
     (if pointer < totalLen then
        (case reslice input pointer (pointer + 2) of
           None \<Rightarrow> None
         | Some grp \<Rightarrow>
             if vis grp = [0x00, 0x1d] then
               (case reslice input (pointer + 2) (pointer + 2 + 2) of
                  None \<Rightarrow> None
                | Some l \<Rightarrow>
                    (case u16 (vis l) of
                       None \<Rightarrow> None
                     | Some len \<Rightarrow>
                         if len \<noteq> 32 then Some (nil_slice, Some (KeyShareLength len))
                         else
                           (case reslice input (pointer + 2 + 2) (pointer + 2 + 2 + len) of
                              None \<Rightarrow> None
                            | Some r \<Rightarrow> Some (r, None))))
             else
               (case reslice input (pointer + 2) (pointer + 2 + 2) of
                  None \<Rightarrow> None
                | Some l \<Rightarrow>
                    (case u16 (vis l) of
                       None \<Rightarrow> None
                     | Some len \<Rightarrow>
                         (case reslice input (pointer + 2 + 2) (pointer + 2 + 2 + len) of
                            None \<Rightarrow> None
                          | Some _ \<Rightarrow> parseKeyShare_loop input totalLen (pointer + 2 + 2 + len)))))
      else Some (nil_slice, Some NoX25519))"
  by pat_completeness auto
termination
  by (relation "measure (\<lambda>(input, totalLen, pointer). totalLen - pointer)") auto

definition parseKeyShare_body :: "slice \<Rightarrow> (slice \<times> error option) option" where
  "parseKeyShare_body input = do {
     l \<leftarrow> reslice input 0 2;
     totalLen \<leftarrow> u16 (vis l);
     parseKeyShare_loop input totalLen 2
   }"

definition parseKeyShare :: "slice \<Rightarrow> slice \<times> error option" where
  "parseKeyShare input =
     (case parseKeyShare_body input of
        None \<Rightarrow> (nil_slice, Some MalformedKeyShare)
      | Some r \<Rightarrow> r)"

text \<open>
  \<^verbatim>\<open>addRecordLayer\<close>: \<^verbatim>\<open>uint16(len(input))\<close> truncates the length to 16 bits; the
  three \<^verbatim>\<open>copy\<close> calls into the 1-, 2- and 2-byte windows copy at most that many
  bytes and leave the rest zero.
\<close>

definition put_u16 :: "nat \<Rightarrow> byte list" where
  "put_u16 n = [of_nat ((n mod 65536) div 256), of_nat (n mod 256)]"

definition copy_into :: "nat \<Rightarrow> byte list \<Rightarrow> byte list" where
  "copy_into n src = take n src @ replicate (n - length src) 0"

definition addRecordLayer :: "byte list \<Rightarrow> byte list \<Rightarrow> byte list \<Rightarrow> byte list" where
  "addRecordLayer input typ ver =
     copy_into 1 typ @ copy_into 2 ver @ copy_into 2 (put_u16 (length input)) @ input"

text \<open>
  The body of \<^verbatim>\<open>parseClientHello\<close>, in the option monad: \<open>None\<close> is a panic (a
  slice or index out of range, or \<^verbatim>\<open>make\<close> with a negative length). The three
  explicit error returns leave \<^verbatim>\<open>ret\<close> nil. The error of \<^verbatim>\<open>parseExtensions\<close> is
  assigned to the named result \<^verbatim>\<open>err\<close> and returned together with the ClientHello.
\<close>

definition parseClientHello_body :: "slice \<Rightarrow> (ClientHello option \<times> error option) option" where
  "parseClientHello_body data = do {
     magic \<leftarrow> reslice data 0 3;
     if vis magic \<noteq> [0x16, 0x03, 0x01] then Some (None, Some WrongMagic)
     else do {
       n \<leftarrow> (if slice_len data < 5 then None else Some (slice_len data - 5));
       src \<leftarrow> reslice_from data 5;
       let peeled = copy_slice (make_bytes n) src;
       let pointer = 0;
       handshakeType \<leftarrow> index peeled pointer;
       if handshakeType \<noteq> 0x01 then Some (None, Some NotClientHello)
       else do {
         let pointer = pointer + 1;
         l3 \<leftarrow> reslice peeled pointer (pointer + 3);
         len \<leftarrow> u32 (0x00 # vis l3);
         let pointer = pointer + 3;
         rest \<leftarrow> reslice_from peeled pointer;
         if len \<noteq> slice_len rest then Some (None, Some LengthMismatch)
         else do {
           clientVersion \<leftarrow> reslice peeled pointer (pointer + 2);
           let pointer = pointer + 2;
           random \<leftarrow> reslice peeled pointer (pointer + 32);
           let pointer = pointer + 32;
           sidl \<leftarrow> index peeled pointer;
           let sessionIdLen = unat sidl;
           let pointer = pointer + 1;
           sessionId \<leftarrow> reslice peeled pointer (pointer + sessionIdLen);
           let pointer = pointer + sessionIdLen;
           csl \<leftarrow> reslice peeled pointer (pointer + 2);
           cipherSuitesLen \<leftarrow> u16 (vis csl);
           let pointer = pointer + 2;
           cipherSuites \<leftarrow> reslice peeled pointer (pointer + cipherSuitesLen);
           let pointer = pointer + cipherSuitesLen;
           cml \<leftarrow> index peeled pointer;
           let compressionMethodsLen = unat cml;
           let pointer = pointer + 1;
           compressionMethods \<leftarrow> reslice peeled pointer (pointer + compressionMethodsLen);
           let pointer = pointer + compressionMethodsLen;
           el \<leftarrow> reslice peeled pointer (pointer + 2);
           extensionsLen \<leftarrow> u16 (vis el);
           let pointer = pointer + 2;
           region \<leftarrow> reslice_from peeled pointer;
           (case parseExtensions region of
              (exts, err) \<Rightarrow>
                Some (Some \<lparr> handshakeType = handshakeType, length' = len,
                             clientVersion = clientVersion, random' = random,
                             sessionIdLen = sessionIdLen, sessionId = sessionId,
                             cipherSuitesLen = cipherSuitesLen, cipherSuites = cipherSuites,
                             compressionMethodsLen = compressionMethodsLen,
                             compressionMethods = compressionMethods,
                             extensionsLen = extensionsLen, extensions = exts \<rparr>,
                      err))
         }
       }
     }
   }"

definition parseClientHello :: "slice \<Rightarrow> ClientHello option \<times> error option" where
  "parseClientHello data =
     (case parseClientHello_body data of
        None \<Rightarrow> (None, Some MalformedClientHello)
      | Some r \<Rightarrow> r)"

section \<open>Collaborators\<close>

text \<open>
  The handshake core calls code that is not part of the file: the key-agreement
  primitives of package \<^verbatim>\<open>ecdh\<close>, the AEAD primitive \<^verbatim>\<open>util.AESGCMEncrypt\<close>, the
  authentication service \<^verbatim>\<open>touchStone\<close>, and \<^verbatim>\<open>crypto/rand\<close>. They are parameters
  of the model. Keys, secrets and nonces are passed to them as the bytes below the
  slice's length.
\<close>

record authenticationInfo =
  sharedSecret :: "byte list"
  nonce :: "byte list"
  ciphertextWithTag :: "byte list"

definition zero_authenticationInfo :: authenticationInfo where
  "zero_authenticationInfo = \<lparr> sharedSecret = [], nonce = [], ciphertextWithTag = [] \<rparr>"

text \<open>\<open>ClientInfo\<close>: the handshake reads the field \<open>ProxyMethod\<close> only.\<close>

record ClientInfo =
  ProxyMethod :: string

definition zero_ClientInfo :: ClientInfo where
  "zero_ClientInfo = \<lparr> ProxyMethod = [] \<rparr>"

record collaborators =
  ecdh_Unmarshal :: "byte list \<Rightarrow> byte list option"
  ecdh_GenerateSharedSecret :: "byte list \<Rightarrow> byte list \<Rightarrow> byte list"
  util_AESGCMEncrypt :: "byte list \<Rightarrow> byte list \<Rightarrow> byte list \<Rightarrow> error + slice"
  touchStone :: "authenticationInfo \<Rightarrow> nat \<Rightarrow> ClientInfo \<times> error option"

text \<open>
  Modelled from the spec: the AEAD primitive (\<^verbatim>\<open>util.AESGCMEncrypt\<close>, not in the file)
  produces a ciphertext-with-tag 16 bytes longer than the plaintext (``32 + 16 = 48
  bytes'' in the source's comment, ``a 48-byte ciphertext-with-tag'' in the spec).
\<close>

definition aead_contract :: "collaborators \<Rightarrow> bool" where
  "aead_contract C =
     (\<forall>n k p ct. util_AESGCMEncrypt C n k p = Inr ct \<longrightarrow> slice_len ct = length p + 16)"

text \<open>
  The bytes \<^verbatim>\<open>crypto/rand\<close> delivers to the three \<^verbatim>\<open>rand.Read\<close> calls of one reply.
  \<^verbatim>\<open>rand.Read(buf)\<close> overwrites the buffer with them; its error is ignored by the
  source, so bytes the source of randomness does not deliver stay as they were.
\<close>

record rand_source =
  rnd_nonce :: "byte list"
  rnd_pad :: "byte list"
  rnd_cert :: "byte list"

definition rand_Read :: "byte list \<Rightarrow> byte list \<Rightarrow> byte list" where
  "rand_Read buf src = take (length buf) src @ drop (length src) buf"

section \<open>The Reply Composer\<close>

text \<open>
  \<^verbatim>\<open>composeServerHello\<close> has no \<^verbatim>\<open>recover\<close>: \<open>None\<close> is a panic that reaches the
  caller. \<open>Inl\<close> is the error of the AEAD primitive. The two \<^verbatim>\<open>hex.DecodeString\<close>
  calls are written as the bytes they decode to.
\<close>

definition composeServerHello ::
  "collaborators \<Rightarrow> rand_source \<Rightarrow> slice \<Rightarrow> byte list \<Rightarrow> byte list \<Rightarrow> (error + byte list) option" where
  "composeServerHello C R sessionId' sharedSecret' sessionKey =
     (let nonce = Slice (rand_Read (vis (make_bytes 12)) (rnd_nonce R)) [] in
      case util_AESGCMEncrypt C (vis nonce) sharedSecret' sessionKey of
        Inl e \<Rightarrow> Some (Inl e)
      | Inr encryptedKey \<Rightarrow> do {
          n12 \<leftarrow> reslice nonce 0 12;
          e20 \<leftarrow> reslice encryptedKey 0 20;
          let serverHello =
            [ [0x02],
              [0x00, 0x00, 0x76],
              [0x03, 0x03],
              vis n12 @ vis e20,
              [0x20],
              vis sessionId',
              [0xc0, 0x30],
              [0x00],
              [0x00, 0x2e] ];
          let keyShare = [0x00, 0x33, 0x00, 0x24, 0x00, 0x1d, 0x00, 0x20];
          e48 \<leftarrow> reslice encryptedKey 20 48;
          let keyExchange = copy_slice (make_bytes 32) e48;
          w \<leftarrow> reslice keyExchange 28 32;
          let keyExchange = take 28 (vis keyExchange) @ rand_Read (vis w) (rnd_pad R);
          let serverHello = serverHello @ [keyShare @ keyExchange];
          let serverHello = serverHello @ [[0x00, 0x2b, 0x00, 0x02, 0x03, 0x04]];
          Some (Inr (concat serverHello))
        })"

definition composeReply ::
  "collaborators \<Rightarrow> rand_source \<Rightarrow> ClientHello \<Rightarrow> byte list \<Rightarrow> byte list \<Rightarrow> (error + byte list) option" where
  "composeReply C R ch sharedSecret' sessionKey =
     (let TLS12 = [0x03, 0x03] in
      case composeServerHello C R (sessionId ch) sharedSecret' sessionKey of
        None \<Rightarrow> None
      | Some (Inl e) \<Rightarrow> Some (Inl e)
      | Some (Inr sh) \<Rightarrow>
          (let shBytes = addRecordLayer sh [0x16] TLS12;
               ccsBytes = addRecordLayer [0x01] [0x14] TLS12;
               cert = rand_Read (vis (make_bytes 68)) (rnd_cert R);
               encryptedCertBytes = addRecordLayer cert [0x17] TLS12;
               ret = shBytes @ ccsBytes;
               ret = ret @ encryptedCertBytes
           in Some (Inr ret)))"

section \<open>From the ClientHello to the authentication payload\<close>

text \<open>
  \<^verbatim>\<open>unmarshalClientHello\<close> returns the payload and the error side by side, as the
  named results of the source do: the fields assigned before an error return stay set.
  \<open>None\<close> is a panic (\<^verbatim>\<open>ch.random[:12]\<close> out of range); there is no \<^verbatim>\<open>recover\<close>.
  The \<^verbatim>\<open>append\<close> of the key share to the session id yields the bytes of the one
  followed by the bytes of the other. In Go it may write them into the backing array
  that the session id shares with the later fields of the ClientHello; the random field
  and the session id, the only fields read afterwards, lie before the bytes written.
\<close>

text \<open>Indexing the extensions map: a missing key reads as the zero value, the nil slice.\<close>

definition ext_lookup :: "ext_map \<Rightarrow> byte \<times> byte \<Rightarrow> slice" where
  "ext_lookup m k = (case m k of None \<Rightarrow> nil_slice | Some v \<Rightarrow> v)"

definition unmarshalClientHello ::
  "collaborators \<Rightarrow> ClientHello \<Rightarrow> byte list \<Rightarrow> (authenticationInfo \<times> error option) option" where
  "unmarshalClientHello C ch staticPv =
     (let ai = zero_authenticationInfo in
      case ecdh_Unmarshal C (vis (random' ch)) of
        None \<Rightarrow> Some (ai, Some ErrInvalidPubKey)
      | Some ephPub \<Rightarrow> do {
          n \<leftarrow> reslice (random' ch) 0 12;
          let ai = ai\<lparr> nonce := vis n \<rparr>;
          let ai = ai\<lparr> sharedSecret := ecdh_GenerateSharedSecret C staticPv ephPub \<rparr>;
          (case parseKeyShare (ext_lookup (extensions ch) (0x00, 0x33)) of
             (keyShare, Some e) \<Rightarrow> Some (ai, Some e)
           | (keyShare, None) \<Rightarrow>
               (let ai = ai\<lparr> ciphertextWithTag := vis (sessionId ch) @ vis keyShare \<rparr> in
                if length (ciphertextWithTag ai) \<noteq> 64
                then Some (ai, Some (ErrCiphertextLength (length (ciphertextWithTag ai))))
                else Some (ai, None)))
        })"

section \<open>The orchestrator\<close>

record State =
  staticPv :: "byte list"
  Now :: nat
  ProxyBook :: "string \<rightharpoonup> string"
  usedRandom :: "byte list set"

text \<open>
  Modelled from the spec: \<^verbatim>\<open>registerRandom\<close> is a method of \<^verbatim>\<open>State\<close> that the file
  calls and does not define. The spec's Replay Guard ``checks membership and inserts in
  one step; returns true iff the value was already present''.
\<close>

definition registerRandom :: "State \<Rightarrow> byte list \<Rightarrow> bool \<times> State" where
  "registerRandom sta r = (r \<in> usedRandom sta, sta\<lparr> usedRandom := insert r (usedRandom sta) \<rparr>)"

text \<open>
  The steps an attempt performs, in the order it performs them: the orchestrator's calls
  to the decoder, the logger, the Replay Guard, \<^verbatim>\<open>unmarshalClientHello\<close> (key exchange
  and key-share extraction), the authentication service and the proxy-method registry,
  and the finisher's calls to the composer and the transport.
\<close>

datatype step =
    Parse
  | LogDebug error
  | RegisterRandom "byte list"
  | UnmarshalClientHello
  | TouchStone authenticationInfo
  | ProxyBookLookup string
  | ComposeReply
  | ConnWrite "byte list"
  | ConnClose

text \<open>The transport, as the handshake uses it: \<^verbatim>\<open>conn.Write\<close> and its error.\<close>

type_synonym conn = "byte list \<Rightarrow> error option"

text \<open>
  The closure \<^verbatim>\<open>finisher\<close>, with the variables it captures (\<^verbatim>\<open>ch\<close>, the shared secret
  of \<^verbatim>\<open>ai\<close>, \<^verbatim>\<open>conn\<close>) as arguments. It returns its error and the steps it performed;
  \<open>None\<close> is a panic of the composer.
\<close>

definition finisher_body ::
  "collaborators \<Rightarrow> conn \<Rightarrow> ClientHello \<Rightarrow> byte list \<Rightarrow> rand_source \<Rightarrow> byte list
     \<Rightarrow> (error option \<times> step list) option" where
  "finisher_body C conn ch secret R sessionKey =
     (case composeReply C R ch secret sessionKey of
        None \<Rightarrow> None
      | Some (Inl e) \<Rightarrow> Some (Some e, [ComposeReply])
      | Some (Inr reply) \<Rightarrow>
          (case conn reply of
             Some e \<Rightarrow> Some (Some e, [ComposeReply, ConnWrite reply, ConnClose])
           | None \<Rightarrow> Some (None, [ComposeReply, ConnWrite reply])))"

record prepared =
  info :: ClientInfo
  finisher :: "(rand_source \<Rightarrow> byte list \<Rightarrow> (error option \<times> step list) option) option"
  err :: "error option"
  sta' :: State
  steps :: "step list"

text \<open>
  \<^verbatim>\<open>PrepareConnection\<close>. The result holds the three named results of the source, the
  state it leaves behind and the steps it performed. \<open>None\<close> is a panic that is not
  recovered (a nil ClientHello without an error, or a panic of
  \<^verbatim>\<open>unmarshalClientHello\<close>).
\<close>

definition PrepareConnection ::
  "collaborators \<Rightarrow> slice \<Rightarrow> State \<Rightarrow> conn \<Rightarrow> prepared option" where
  "PrepareConnection C firstPacket sta conn =
     (case parseClientHello firstPacket of
        (_, Some e) \<Rightarrow>
          Some \<lparr> info = zero_ClientInfo, finisher = None, err = Some ErrBadClientHello,
                 sta' = sta, steps = [Parse, LogDebug e] \<rparr>
      | (None, None) \<Rightarrow> None
      | (Some ch, None) \<Rightarrow>
          (case registerRandom sta (vis (random' ch)) of
             (used, sta1) \<Rightarrow>
               if used then
                 Some \<lparr> info = zero_ClientInfo, finisher = None, err = Some ErrReplay,
                        sta' = sta1, steps = [Parse, RegisterRandom (vis (random' ch))] \<rparr>
               else
                 (case unmarshalClientHello C ch (staticPv sta1) of
                    None \<Rightarrow> None
                  | Some (ai, Some e) \<Rightarrow>
                      Some \<lparr> info = zero_ClientInfo, finisher = None, err = Some e,
                             sta' = sta1,
                             steps = [Parse, RegisterRandom (vis (random' ch)),
                                      UnmarshalClientHello] \<rparr>
                  | Some (ai, None) \<Rightarrow>
                      (case touchStone C ai (Now sta1) of
                         (i, Some e) \<Rightarrow>
                           Some \<lparr> info = i, finisher = None, err = Some ErrNotCloak,
                                  sta' = sta1,
                                  steps = [Parse, RegisterRandom (vis (random' ch)),
                                           UnmarshalClientHello, TouchStone ai, LogDebug e] \<rparr>
                       | (i, None) \<Rightarrow>
                           if ProxyBook sta1 (ProxyMethod i) = None then
                             Some \<lparr> info = i, finisher = None, err = Some ErrBadProxyMethod,
                                    sta' = sta1,
                                    steps = [Parse, RegisterRandom (vis (random' ch)),
                                             UnmarshalClientHello, TouchStone ai,
                                             ProxyBookLookup (ProxyMethod i)] \<rparr>
                           else
                             Some \<lparr> info = i,
                                    finisher = Some (finisher_body C conn ch (sharedSecret ai)),
                                    err = None, sta' = sta1,
                                    steps = [Parse, RegisterRandom (vis (random' ch)),
                                             UnmarshalClientHello, TouchStone ai,
                                             ProxyBookLookup (ProxyMethod i)] \<rparr>))))"

text \<open>The byte strings handed to \<^verbatim>\<open>conn.Write\<close> in a list of steps, in order.\<close>

fun writes :: "step list \<Rightarrow> byte list list" where
  "writes [] = []"
| "writes (ConnWrite b # st) = b # writes st"
| "writes (_ # st) = writes st"

section \<open>Well-formed extension regions\<close>

text \<open>
  The encoding of a list of \<open>{type, length, payload}\<close> entries, used to state what the
  extension parser does on a region that holds exactly such entries.
\<close>

definition encode_ext :: "(byte \<times> byte) \<times> byte list \<Rightarrow> byte list" where
  "encode_ext e = [fst (fst e), snd (fst e)] @ put_u16 (length (snd e)) @ snd e"

definition encode_exts :: "((byte \<times> byte) \<times> byte list) list \<Rightarrow> byte list" where
  "encode_exts es = concat (map encode_ext es)"

definition wf_exts :: "((byte \<times> byte) \<times> byte list) list \<Rightarrow> bool" where
  "wf_exts es = list_all (\<lambda>e. length (snd e) < 65536) es"

section \<open>The reply's wire format\<close>

text \<open>
  The fixed layout of the reply, after section 4.6 of the specification: the ServerHello
  fields in order around its three variable parts (the 32-byte ``random'', the echoed
  session id, the 32-byte key-exchange field), and the three records around the
  ServerHello and the 68 certificate bytes, with the record lengths 122, 1 and 68.
\<close>

definition serverHello_layout :: "byte list \<Rightarrow> byte list \<Rightarrow> byte list \<Rightarrow> byte list" where
  "serverHello_layout rnd sid kx =
     [0x02] @ [0x00, 0x00, 0x76] @ [0x03, 0x03] @ rnd @ [0x20] @ sid @ [0xc0, 0x30] @ [0x00]
       @ [0x00, 0x2e] @ [0x00, 0x33, 0x00, 0x24, 0x00, 0x1d, 0x00, 0x20] @ kx
       @ [0x00, 0x2b, 0x00, 0x02, 0x03, 0x04]"

definition reply_layout :: "byte list \<Rightarrow> byte list \<Rightarrow> byte list" where
  "reply_layout sh cert =
     ([0x16] @ [0x03, 0x03] @ [0x00, 0x7a] @ sh)
       @ ([0x14] @ [0x03, 0x03] @ [0x00, 0x01] @ [0x01])
       @ ([0x17] @ [0x03, 0x03] @ [0x00, 0x44] @ cert)"

text \<open>The ``random'' field of a ServerHello, and its key-exchange field when the
  session id has \<open>n\<close> bytes.\<close>

definition sh_random :: "byte list \<Rightarrow> byte list" where
  "sh_random sh = take 32 (drop 6 sh)"

definition sh_key_exchange :: "nat \<Rightarrow> byte list \<Rightarrow> byte list" where
  "sh_key_exchange n sh = take 32 (drop (6 + 32 + 1 + n + 2 + 1 + 2 + 8) sh)"

section \<open>Example inputs\<close>

text \<open>
  Concrete collaborators and inputs on which the theorems below are instantiated: a key
  decoder that accepts 32-byte values, an AEAD stand-in that appends a 16-byte tag, and
  an authentication service that accepts one payload.
\<close>

definition example_collaborators :: collaborators where
  "example_collaborators =
     \<lparr> ecdh_Unmarshal = (\<lambda>r. if length r = 32 then Some r else None),
       ecdh_GenerateSharedSecret = (\<lambda>pv pub. pub),
       util_AESGCMEncrypt = (\<lambda>n k p. if length k = 32 then Inr (Slice (p @ replicate 16 0x00) [])
                                      else Inl (CollaboratorError ''key size'')),
       touchStone = (\<lambda>ai now. if ciphertextWithTag ai = replicate 32 0xcc @ replicate 32 0xbb
                               then (\<lparr> ProxyMethod = ''shadowsocks'' \<rparr>, None)
                               else (zero_ClientInfo, Some (CollaboratorError ''auth''))) \<rparr>"

definition example_state :: State where
  "example_state =
     \<lparr> staticPv = replicate 32 0x01, Now = 0,
       ProxyBook = [''shadowsocks'' \<mapsto> ''127.0.0.1:8388''], usedRandom = {} \<rparr>"

definition example_conn :: conn where
  "example_conn = (\<lambda>b. None)"

text \<open>An extensions region with one key\_share extension that offers a 32-byte x25519
  value.\<close>

definition example_key_share :: "byte list" where
  "example_key_share = [0x00, 0x24, 0x00, 0x1d, 0x00, 0x20] @ replicate 32 0xbb"

definition example_region :: "byte list" where
  "example_region = encode_exts [((0x00, 0x33), example_key_share)]"

definition example_rand :: rand_source where
  "example_rand = \<lparr> rnd_nonce = replicate 12 0x11, rnd_pad = replicate 4 0x22,
                     rnd_cert = replicate 68 0x33 \<rparr>"

definition example_hello :: "byte list \<Rightarrow> ClientHello" where
  "example_hello sid =
     \<lparr> handshakeType = 0x01, length' = 0, clientVersion = Slice [0x03, 0x03] [],
       random' = Slice (replicate 32 0xaa) [], sessionIdLen = length sid,
       sessionId = Slice sid [], cipherSuitesLen = 0, cipherSuites = nil_slice,
       compressionMethodsLen = 0, compressionMethods = nil_slice, extensionsLen = 0,
       extensions = Map.empty \<rparr>"

section \<open>The decoder's reads, by position\<close>

text \<open>
  What the decoder's reads need, written as explicit bounds on the input: the record
  magic within the capacity, a header (message type and 3-byte length) that matches the
  byte count, and, for the handshake message \<open>p\<close> that follows the 5-byte record
  header, the number of bytes that the fixed fields and the declared lengths of session
  id, cipher suites and compression methods require up to the start of the extensions
  region. \<open>decoded\<close> reads the fields at those positions.
\<close>

definition magic_ok :: "slice \<Rightarrow> bool" where
  "magic_ok data = (3 \<le> slice_cap data \<and> take 3 (backing data) = [0x16, 0x03, 0x01])"

definition header_ok :: "slice \<Rightarrow> bool" where
  "header_ok data =
     (magic_ok data \<and> 9 \<le> slice_len data \<and> vis data ! 5 = 0x01
      \<and> unat (vis data ! 6) * 65536 + unat (vis data ! 7) * 256 + unat (vis data ! 8)
          = slice_len data - 9)"

definition fields_need :: "byte list \<Rightarrow> nat" where
  "fields_need p =
     (if length p < 39 then 39
      else let sid = unat (p ! 38) in
        if length p < 39 + sid + 2 then 39 + sid + 2
        else let cs = unat (p ! (39 + sid)) * 256 + unat (p ! (39 + sid + 1)) in
          if length p < 39 + sid + 2 + cs + 1 then 39 + sid + 2 + cs + 1
          else let cm = unat (p ! (39 + sid + 2 + cs)) in 39 + sid + 2 + cs + 1 + cm + 2)"

definition decoded :: "byte list \<Rightarrow> ClientHello" where
  "decoded p =
     (let sid = unat (p ! 38);
          cs = unat (p ! (39 + sid)) * 256 + unat (p ! (39 + sid + 1));
          cm = unat (p ! (39 + sid + 2 + cs));
          e = 39 + sid + 2 + cs + 1 + cm
      in \<lparr> handshakeType = p ! 0,
            length' = length p - 4,
            clientVersion = Slice (take 2 (drop 4 p)) (drop 6 p),
            random' = Slice (take 32 (drop 6 p)) (drop 38 p),
            sessionIdLen = sid,
            sessionId = Slice (take sid (drop 39 p)) (drop (39 + sid) p),
            cipherSuitesLen = cs,
            cipherSuites = Slice (take cs (drop (39 + sid + 2) p)) (drop (39 + sid + 2 + cs) p),
            compressionMethodsLen = cm,
            compressionMethods = Slice (take cm (drop (39 + sid + 2 + cs + 1) p)) (drop e p),
            extensionsLen = unat (p ! e) * 256 + unat (p ! (e + 1)),
            extensions = fst (parseExtensions (Slice (drop (e + 2) p) [])) \<rparr>)"

text \<open>
  A first packet: record header, ClientHello header, version, the random \<open>aa ... aa\<close>,
  the session id \<open>sid\<close>, no cipher suites, no compression methods, and the extensions
  region \<open>region\<close>. In \<open>truncated_extension_packet\<close> the region holds one extension
  header that declares 38 payload bytes and nothing after it.
\<close>

definition example_packet :: "byte list \<Rightarrow> byte list \<Rightarrow> slice" where
  "example_packet sid region =
     Slice ([0x16, 0x03, 0x01, 0x00, 0x00]
            @ [0x01, 0x00, 0x00, of_nat (40 + length sid + length region)]
            @ [0x03, 0x03] @ replicate 32 0xaa @ [of_nat (length sid)] @ sid
            @ [0x00, 0x00] @ [0x00] @ put_u16 (length region) @ region) []"

definition truncated_extension_packet :: slice where
  "truncated_extension_packet = example_packet [] [0x00, 0x33, 0x00, 0x26]"

section \<open>Basic facts\<close>

text \<open>The loops are unfolded by hand, one iteration at a time.\<close>

declare parseExtensions_loop.simps [simp del]
declare parseKeyShare_loop.simps [simp del]

lemma unat_byte_of_nat: "n < 256 \<Longrightarrow> unat (of_nat n :: byte) = n"
  by (simp add: unat_of_nat)

lemma u16_put_u16: "n < 65536 \<Longrightarrow> u16 (put_u16 n) = Some n"
  by (simp add: u16_def put_u16_def unat_byte_of_nat)

lemma length_put_u16: "length (put_u16 n) = 2"
  by (simp add: put_u16_def)

lemma length_encode_ext: "length (encode_ext e) = 4 + length (snd e)"
  by (simp add: encode_ext_def length_put_u16)

lemma encode_exts_Nil: "encode_exts [] = []"
  by (simp add: encode_exts_def)

lemma encode_exts_Cons: "encode_exts (e # es) = encode_ext e @ encode_exts es"
  by (simp add: encode_exts_def)

lemma loop_step:
  assumes "length (snd e) < 65536"
  shows "parseExtensions_loop (Slice (pre @ encode_ext e @ rest) sp) (length pre) m =
         parseExtensions_loop (Slice (pre @ encode_ext e @ rest) sp) (length pre + 4 + length (snd e))
           (m(fst e \<mapsto> Slice (snd e) (rest @ sp)))"
proof -
  obtain t0 t1 pl where e: "e = ((t0, t1), pl)" by (metis surj_pair)
  have n: "length pl < 65536" using assms e by simp
  let ?v = "pre @ encode_ext e @ rest"
  have enc: "encode_ext e = [t0, t1] @ put_u16 (length pl) @ pl"
    by (simp add: encode_ext_def e)
  have r1: "reslice (Slice ?v sp) (length pre) (length pre + 2) = Some (Slice [t0, t1] (put_u16 (length pl) @ pl @ rest @ sp))"
    by (simp add: reslice_def slice_cap_def backing_def enc length_put_u16)
  have r2: "reslice (Slice ?v sp) (length pre + 2) (length pre + 2 + 2) = Some (Slice (put_u16 (length pl)) (pl @ rest @ sp))"
    by (simp add: reslice_def slice_cap_def backing_def enc length_put_u16)
  obtain a b where ab: "put_u16 (length pl) = [a, b]"
    by (simp add: put_u16_def)
  have r3: "reslice (Slice ?v sp) (length pre + 2 + 2) (length pre + 2 + 2 + length pl) = Some (Slice pl (rest @ sp))"
    by (simp add: reslice_def slice_cap_def backing_def enc ab eval_nat_numeral)
  have lt: "length pre < slice_len (Slice ?v sp)"
    by (simp add: slice_len_def enc)
  have step: "parseExtensions_loop (Slice ?v sp) (length pre) m =
        parseExtensions_loop (Slice ?v sp) (length pre + 2 + 2 + length pl)
          (m((t0, t1) \<mapsto> Slice pl (rest @ sp)))"
    apply (subst parseExtensions_loop.simps)
    apply (simp only: lt r1 r2 r3 if_True option.case slice.sel u16_put_u16 [OF n])
    apply simp
    done
  have a: "length pre + 2 + 2 + length (snd e) = length pre + 4 + length (snd e)"
    by simp
  have b: "(t0, t1) = fst e" and c: "pl = snd e"
    by (simp_all add: e)
  show ?thesis
    using step unfolding b c a .
qed

lemma loop_encode:
  "wf_exts es \<Longrightarrow>
   \<exists>m'. parseExtensions_loop (Slice (pre @ encode_exts es) sp) (length pre) m = (m', False)
      \<and> map_option vis \<circ> m' = (map_option vis \<circ> m) ++ map_of (rev es)"
proof (induction es arbitrary: pre m)
  case Nil
  then show ?case
    by (subst parseExtensions_loop.simps) (simp add: encode_exts_Nil slice_len_def)
next
  case (Cons e es)
  have n: "length (snd e) < 65536" and wf: "wf_exts es"
    using Cons.prems by (simp_all add: wf_exts_def)
  let ?pre = "pre @ encode_ext e"
  let ?m = "m(fst e \<mapsto> Slice (snd e) (encode_exts es @ sp))"
  from Cons.IH [OF wf, of ?pre ?m]
  obtain m' where m': "parseExtensions_loop (Slice (?pre @ encode_exts es) sp) (length ?pre) ?m = (m', False)"
    and eq: "map_option vis \<circ> m' = (map_option vis \<circ> ?m) ++ map_of (rev es)"
    by blast
  have "parseExtensions_loop (Slice (pre @ encode_exts (e # es)) sp) (length pre) m = (m', False)"
    using loop_step [OF n, of pre "encode_exts es" sp m] m'
    by (simp add: encode_exts_Cons length_encode_ext add.assoc)
  moreover have "map_option vis \<circ> m' = (map_option vis \<circ> m) ++ map_of (rev (e # es))"
  proof -
    have "map_option vis \<circ> ?m = (map_option vis \<circ> m) ++ map_of [e]"
      by (cases e) (auto simp: fun_eq_iff map_add_def)
    then show ?thesis
      by (simp add: eq map_of_append del: map_add_upd)
  qed
  ultimately show ?case by blast
qed

section \<open>Duplicate extension types\<close>

text \<open>
  Claim C10. For every extensions region that holds exactly a list of well-formed
  \<open>{type, length, payload}\<close> entries, \<^verbatim>\<open>parseExtensions\<close> returns no error, and
  the map it returns holds, for every type, the payload of the last entry of that type
  in the region: a later duplicate overwrites an earlier one. The first conjunct gives
  the whole map (\<open>map_of\<close> of the reversed list finds the last entry), the second
  spells it out for one type \<open>t\<close> whose last occurrence carries the payload \<open>pl\<close>,
  whatever entries of the same type come before it.
\<close>

theorem parseExtensions_last_duplicate_wins:
  assumes "wf_exts es" and "es = es1 @ (t, pl) # es2" and "t \<notin> fst ` set es2"
  shows "snd (parseExtensions (Slice (encode_exts es) sp)) = None
       \<and> map_option vis \<circ> fst (parseExtensions (Slice (encode_exts es) sp)) = map_of (rev es)
       \<and> map_option vis (fst (parseExtensions (Slice (encode_exts es) sp)) t) = Some pl"
proof -
  from loop_encode [OF assms(1), of "[]" sp Map.empty]
  obtain m' where m': "parseExtensions_loop (Slice (encode_exts es) sp) 0 Map.empty = (m', False)"
    and eq: "map_option vis \<circ> m' = map_of (rev es)"
    by auto
  have res: "parseExtensions (Slice (encode_exts es) sp) = (m', None)"
    by (simp add: parseExtensions_def m')
  have "map_of (rev es2) t = None"
    using assms(3) by (simp add: map_of_eq_None_iff)
  then have "map_of (rev es) t = Some pl"
    by (simp add: assms(2) map_of_append map_add_def)
  then have "map_option vis (m' t) = Some pl"
    using eq by (metis comp_apply)
  then show ?thesis
    by (simp add: res eq)
qed

theorem parseExtensions_last_duplicate_wins_witness:
  "map_option vis
     (fst (parseExtensions
        (Slice (encode_exts [((0x00, 0x33), [0x01]), ((0x00, 0x2b), [0x02]), ((0x00, 0x33), [0x03])]) []))
      (0x00, 0x33)) = Some [0x03]"
proof -
  let ?es1 = "[((0x00, 0x33), [0x01]), ((0x00, 0x2b), [0x02 :: byte])] :: ((byte \<times> byte) \<times> byte list) list"
  let ?es = "?es1 @ [((0x00, 0x33), [0x03])]"
  have wf: "wf_exts ?es"
    by (simp add: wf_exts_def)
  have sp: "?es = ?es1 @ ((0x00, 0x33), [0x03]) # []"
    by simp
  have notin: "(0x00 :: byte, 0x33 :: byte) \<notin> fst ` set ([] :: ((byte \<times> byte) \<times> byte list) list)"
    by simp
  have "map_option vis (fst (parseExtensions (Slice (encode_exts ?es) [])) (0x00, 0x33)) = Some [0x03]"
    using parseExtensions_last_duplicate_wins [OF wf sp notin, of "[]"] by blast
  then show ?thesis
    by simp
qed

lemma length_rand_Read: "length (rand_Read buf src) = length buf"
  by (simp add: rand_Read_def)

lemma vis_make_bytes: "vis (make_bytes n) = replicate n 0"
  by (simp add: make_bytes_def)

lemma composeServerHello_layout:
  assumes enc: "util_AESGCMEncrypt C (rand_Read (vis (make_bytes 12)) (rnd_nonce R)) ss key = Inr ct"
    and len: "slice_len ct = 48"
  shows "composeServerHello C R sid ss key =
           Some (Inr ([0x02, 0x00, 0x00, 0x76, 0x03, 0x03]
              @ rand_Read (vis (make_bytes 12)) (rnd_nonce R) @ take 20 (vis ct)
              @ [0x20] @ vis sid @ [0xc0, 0x30, 0x00, 0x00, 0x2e]
              @ [0x00, 0x33, 0x00, 0x24, 0x00, 0x1d, 0x00, 0x20]
              @ drop 20 (vis ct) @ rand_Read (replicate 4 0) (rnd_pad R)
              @ [0x00, 0x2b, 0x00, 0x02, 0x03, 0x04]))"
proof -
  obtain cv csp where ct: "ct = Slice cv csp" by (cases ct)
  have cv: "length cv = 48" using len by (simp add: ct slice_len_def)
  let ?n = "rand_Read (vis (make_bytes 12)) (rnd_nonce R)"
  have ln: "length ?n = 12" by (simp add: length_rand_Read vis_make_bytes)
  have r1: "reslice (Slice ?n []) 0 12 = Some (Slice ?n [])"
    using ln by (simp add: reslice_def slice_cap_def backing_def)
  have r2: "reslice ct 0 20 = Some (Slice (take 20 cv) (drop 20 cv @ csp))"
    by (simp add: reslice_def slice_cap_def backing_def ct cv)
  have r3: "reslice ct 20 48 = Some (Slice (drop 20 cv) csp)"
    by (simp add: reslice_def slice_cap_def backing_def ct cv)
  have kx: "copy_slice (make_bytes 32) (Slice (drop 20 cv) csp) = Slice (drop 20 cv @ replicate 4 0) []"
    by (simp add: copy_slice_def make_bytes_def slice_len_def cv)
  have r4: "reslice (Slice (drop 20 cv @ replicate 4 0) []) 28 32 = Some (Slice (replicate 4 0) [])"
    by (simp add: reslice_def slice_cap_def backing_def cv)
  have vct: "vis ct = cv" by (simp add: ct)
  show ?thesis
    by (simp add: composeServerHello_def Let_def enc r1 r2 r3 kx r4 cv vct)
qed

lemma drop_length_append: "drop (length xs) (xs @ ys) = ys"
  by simp

lemma addRecordLayer_layout:
  "addRecordLayer input [t] [a, b] = [t, a, b] @ put_u16 (length input) @ input"
  by (simp add: addRecordLayer_def copy_into_def put_u16_def)

lemma composeReply_layout:
  assumes enc: "util_AESGCMEncrypt C (rand_Read (vis (make_bytes 12)) (rnd_nonce R)) ss key = Inr ct"
    and len: "slice_len ct = 48"
  shows "composeReply C R ch ss key =
           Some (Inr ([0x16, 0x03, 0x03] @ put_u16 (90 + slice_len (sessionId ch))
              @ serverHello_layout (rand_Read (vis (make_bytes 12)) (rnd_nonce R) @ take 20 (vis ct))
                  (vis (sessionId ch)) (drop 20 (vis ct) @ rand_Read (replicate 4 0) (rnd_pad R))
              @ [0x14, 0x03, 0x03, 0x00, 0x01, 0x01]
              @ [0x17, 0x03, 0x03, 0x00, 0x44] @ rand_Read (replicate 68 0) (rnd_cert R)))"
proof -
  have l: "length (vis ct) = 48" using len by (simp add: slice_len_def)
  show ?thesis
    by (simp add: composeReply_def composeServerHello_layout [OF enc len] Let_def
        addRecordLayer_layout serverHello_layout_def length_rand_Read vis_make_bytes l
        slice_len_def put_u16_def)
qed

section \<open>The reply is byte-fixed\<close>

text \<open>
  Claim C2, amended. For every ClientHello whose session id has 32 bytes, every shared
  secret and every 32-byte session key on which the AEAD encryption succeeds,
  \<^verbatim>\<open>composeReply\<close> returns exactly the three records of \<open>reply_layout\<close> in the order
  ServerHello, ChangeCipherSpec, fake certificate: every byte outside the 32-byte
  ``random'', the echoed session id, the 32-byte key-exchange field and the 68 certificate
  bytes is the constant of the layout, and the total length is 206. (For a session id of
  another length the ServerHello record is not 122 bytes long; see the counterexample.)
\<close>

theorem composeReply_fixed_layout:
  assumes "aead_contract C" and "length sessionKey = 32"
    and "util_AESGCMEncrypt C (rand_Read (vis (make_bytes 12)) (rnd_nonce R)) secret sessionKey = Inr ct"
    and "slice_len (sessionId ch) = 32"
  shows "\<exists>rnd kx cert. length rnd = 32 \<and> length kx = 32 \<and> length cert = 68
           \<and> composeReply C R ch secret sessionKey =
               Some (Inr (reply_layout (serverHello_layout rnd (vis (sessionId ch)) kx) cert))
           \<and> length (reply_layout (serverHello_layout rnd (vis (sessionId ch)) kx) cert) = 206"
proof -
  have len: "slice_len ct = 48"
    using assms(1,2,3) by (simp add: aead_contract_def)
  have l: "length (vis ct) = 48" using len by (simp add: slice_len_def)
  have s: "length (vis (sessionId ch)) = 32" using assms(4) by (simp add: slice_len_def)
  let ?rnd = "rand_Read (vis (make_bytes 12)) (rnd_nonce R) @ take 20 (vis ct)"
  let ?kx = "drop 20 (vis ct) @ rand_Read (replicate 4 0) (rnd_pad R)"
  let ?cert = "rand_Read (replicate 68 0) (rnd_cert R)"
  have "length ?rnd = 32" "length ?kx = 32" "length ?cert = 68"
    by (simp_all add: length_rand_Read vis_make_bytes l)
  moreover have "composeReply C R ch secret sessionKey =
      Some (Inr (reply_layout (serverHello_layout ?rnd (vis (sessionId ch)) ?kx) ?cert))"
    by (simp add: composeReply_layout [OF assms(3) len] reply_layout_def assms(4) put_u16_def)
  moreover have "length (reply_layout (serverHello_layout ?rnd (vis (sessionId ch)) ?kx) ?cert) = 206"
    by (simp add: reply_layout_def serverHello_layout_def length_rand_Read vis_make_bytes l s)
  ultimately show ?thesis by blast
qed

lemma example_aead_contract: "aead_contract example_collaborators"
  by (auto simp: aead_contract_def example_collaborators_def slice_len_def split: if_splits)

lemma example_aead:
  "length k = 32 \<Longrightarrow> util_AESGCMEncrypt example_collaborators n k p = Inr (Slice (p @ replicate 16 0x00) [])"
  by (simp add: example_collaborators_def)

theorem composeReply_fixed_layout_witness:
  "\<exists>rnd kx cert. length rnd = 32 \<and> length kx = 32 \<and> length cert = 68
     \<and> composeReply example_collaborators example_rand (example_hello (replicate 32 0xcc))
           (replicate 32 0xaa) (replicate 32 0x55)
         = Some (Inr (reply_layout (serverHello_layout rnd (replicate 32 0xcc) kx) cert))"
proof -
  have k: "length (replicate 32 (0x55 :: byte)) = 32" by simp
  have s: "slice_len (sessionId (example_hello (replicate 32 0xcc))) = 32"
    by (simp add: example_hello_def slice_len_def)
  have v: "vis (sessionId (example_hello (replicate 32 0xcc))) = replicate 32 0xcc"
    by (simp add: example_hello_def)
  have e: "util_AESGCMEncrypt example_collaborators
             (rand_Read (vis (make_bytes 12)) (rnd_nonce example_rand)) (replicate 32 0xaa) (replicate 32 0x55)
           = Inr (Slice (replicate 32 0x55 @ replicate 16 0x00) [])"
    by (rule example_aead) simp
  show ?thesis
    using composeReply_fixed_layout [OF example_aead_contract k e s] unfolding v by blast
qed

text \<open>
  The claim as stated, for every ClientHello, fails for an empty session id: the
  ServerHello record then declares 90 bytes (\<open>0x5a\<close>) and the reply has 174.
\<close>

theorem composeReply_fixed_layout_counterexample:
  "composeReply example_collaborators example_rand (example_hello []) (replicate 32 0xaa)
     (replicate 32 0x55)
   = Some (Inr ([0x16, 0x03, 0x03, 0x00, 0x5a]
        @ serverHello_layout (replicate 12 0x11 @ replicate 20 0x55) []
            (replicate 12 0x55 @ replicate 16 0x00 @ replicate 4 0x22)
        @ [0x14, 0x03, 0x03, 0x00, 0x01, 0x01]
        @ [0x17, 0x03, 0x03, 0x00, 0x44] @ replicate 68 0x33))
   \<and> length ([0x16, 0x03, 0x03, 0x00, 0x5a :: byte]
        @ serverHello_layout (replicate 12 0x11 @ replicate 20 0x55) []
            (replicate 12 0x55 @ replicate 16 0x00 @ replicate 4 0x22)
        @ [0x14, 0x03, 0x03, 0x00, 0x01, 0x01]
        @ [0x17, 0x03, 0x03, 0x00, 0x44] @ replicate 68 0x33) = 174"
proof -
  have e: "util_AESGCMEncrypt example_collaborators
             (rand_Read (vis (make_bytes 12)) (rnd_nonce example_rand)) (replicate 32 0xaa) (replicate 32 0x55)
           = Inr (Slice (replicate 32 0x55 @ replicate 16 0x00) [])"
    by (rule example_aead) simp
  have l: "slice_len (Slice (replicate 32 (0x55 :: byte) @ replicate 16 0x00) []) = 48"
    by (simp add: slice_len_def)
  show ?thesis
    unfolding composeReply_layout [OF e l]
    by (simp add: serverHello_layout_def example_hello_def slice_len_def put_u16_def
        rand_Read_def vis_make_bytes example_rand_def)
qed

section \<open>The 20/28 split of the ciphertext\<close>

text \<open>
  Claim C4. For every reply that \<^verbatim>\<open>composeServerHello\<close> produces from a 48-byte AEAD
  ciphertext-with-tag, the nonce handed to the AEAD primitive is bytes 0..11 of the
  ServerHello ``random'' field, and bytes 12..31 of that field followed by the first 28
  bytes of the key-exchange field of the key\_share extension are the ciphertext-with-tag.
\<close>

theorem composeServerHello_split_roundtrip:
  assumes "util_AESGCMEncrypt C (rand_Read (vis (make_bytes 12)) (rnd_nonce R)) secret sessionKey = Inr ct"
    and "slice_len ct = 48"
  shows "\<exists>sh. composeServerHello C R sid secret sessionKey = Some (Inr sh)
           \<and> take 12 (sh_random sh) = rand_Read (vis (make_bytes 12)) (rnd_nonce R)
           \<and> drop 12 (sh_random sh) @ take 28 (sh_key_exchange (slice_len sid) sh) = vis ct"
proof -
  let ?n = "rand_Read (vis (make_bytes 12)) (rnd_nonce R)"
  let ?pad = "rand_Read (replicate 4 0) (rnd_pad R)"
  let ?pre = "[0x02, 0x00, 0x00, 0x76, 0x03, 0x03] @ ?n @ take 20 (vis ct) @ [0x20] @ vis sid
                @ [0xc0, 0x30, 0x00, 0x00, 0x2e] @ [0x00, 0x33, 0x00, 0x24, 0x00, 0x1d, 0x00, 0x20]"
  let ?sh = "?pre @ drop 20 (vis ct) @ ?pad @ [0x00, 0x2b, 0x00, 0x02, 0x03, 0x04]"
  have l: "length (vis ct) = 48" using assms(2) by (simp add: slice_len_def)
  have ln: "length ?n = 12" by (simp add: length_rand_Read vis_make_bytes)
  have sh: "composeServerHello C R sid secret sessionKey = Some (Inr ?sh)"
    using composeServerHello_layout [OF assms] by simp
  have rnd: "sh_random ?sh = ?n @ take 20 (vis ct)"
    by (simp add: sh_random_def ln l)
  have lp: "length ?pre = 6 + 32 + 1 + slice_len sid + 2 + 1 + 2 + 8"
    by (simp add: ln l slice_len_def)
  have "drop (6 + 32 + 1 + slice_len sid + 2 + 1 + 2 + 8) ?sh = drop 20 (vis ct) @ ?pad @ [0x00, 0x2b, 0x00, 0x02, 0x03, 0x04]"
    unfolding lp [symmetric] by (rule drop_length_append)
  then have kx: "take 28 (sh_key_exchange (slice_len sid) ?sh) = drop 20 (vis ct)"
    by (simp add: sh_key_exchange_def l)
  have a: "take 12 (sh_random ?sh) = ?n"
    unfolding rnd using ln by simp
  have b: "drop 12 (sh_random ?sh) @ take 28 (sh_key_exchange (slice_len sid) ?sh) = vis ct"
    unfolding rnd kx using ln by simp
  show ?thesis
    by (rule exI [of _ ?sh]) (intro conjI sh a b)
qed

theorem composeServerHello_split_roundtrip_witness:
  "\<exists>sh. composeServerHello example_collaborators example_rand (Slice (replicate 32 0xcc) [])
            (replicate 32 0xaa) (replicate 32 0x55) = Some (Inr sh)
       \<and> take 12 (sh_random sh) = replicate 12 0x11
       \<and> drop 12 (sh_random sh) @ take 28 (sh_key_exchange 32 sh) = replicate 32 0x55 @ replicate 16 0x00"
proof -
  have e: "util_AESGCMEncrypt example_collaborators
             (rand_Read (vis (make_bytes 12)) (rnd_nonce example_rand)) (replicate 32 0xaa) (replicate 32 0x55)
           = Inr (Slice (replicate 32 0x55 @ replicate 16 0x00) [])"
    by (rule example_aead) simp
  have l: "slice_len (Slice (replicate 32 (0x55 :: byte) @ replicate 16 0x00) []) = 48"
    by (simp add: slice_len_def)
  have n: "rand_Read (vis (make_bytes 12)) (rnd_nonce example_rand) = replicate 12 0x11"
    by (simp add: rand_Read_def vis_make_bytes example_rand_def)
  show ?thesis
    using composeServerHello_split_roundtrip [OF e l, of "Slice (replicate 32 0xcc) []"]
    by (simp add: n slice_len_def)
qed

section \<open>The decoder, case by case\<close>

lemma reslice_flat:
  "reslice (Slice p []) a b =
     (if a \<le> b \<and> b \<le> length p then Some (Slice (take (b - a) (drop a p)) (drop b p)) else None)"
  by (simp add: reslice_def slice_cap_def backing_def)

lemma reslice_from_flat:
  "reslice_from (Slice p []) a = (if a \<le> length p then Some (Slice (drop a p) []) else None)"
  by (simp add: reslice_from_def slice_len_def)

lemma index_flat: "index (Slice p []) i = (if i < length p then Some (p ! i) else None)"
  by (simp add: index_def slice_len_def)

lemma u16_take2: "a + 2 \<le> length p \<Longrightarrow> u16 (take 2 (drop a p)) = Some (unat (p ! a) * 256 + unat (p ! (a + 1)))"
  by (simp add: u16_def)

lemma u32_take3: "a + 3 \<le> length p \<Longrightarrow>
  u32 (0x00 # take 3 (drop a p)) = Some (unat (p ! a) * 65536 + unat (p ! (a + 1)) * 256 + unat (p ! (a + 2)))"
  by (simp add: u32_def)

lemma peeled_eq:
  "5 \<le> length d \<Longrightarrow> copy_slice (make_bytes (length d - 5)) (Slice (drop 5 d) sp) = Slice (drop 5 d) []"
  by (simp add: copy_slice_def make_bytes_def slice_len_def)

lemma body_on_peeled:
  assumes m: "magic_ok (Slice d sp)" and l: "9 \<le> length d" and t: "d ! 5 = 0x01"
    and n: "unat (d ! 6) * 65536 + unat (d ! 7) * 256 + unat (d ! 8) = length d - 9"
    and p: "p = drop 5 d"
  shows "parseClientHello_body (Slice d sp) =
     (if length p < fields_need p then None
      else Some (Some (decoded p), snd (parseExtensions (Slice (drop (fields_need p) p) []))))"
proof -
  have r0: "reslice (Slice d sp) 0 3 = Some (Slice [0x16, 0x03, 0x01] (drop 3 (d @ sp)))"
    using m by (simp add: magic_ok_def reslice_def slice_cap_def backing_def)
  have r1: "reslice_from (Slice d sp) 5 = Some (Slice (drop 5 d) sp)"
    using l by (simp add: reslice_from_def slice_len_def)
  have pe: "copy_slice (make_bytes (length d - 5)) (Slice (drop 5 d) sp) = Slice p []"
    using l by (simp add: peeled_eq p)
  have lp: "length p = length d - 5" by (simp add: p)
  have p0: "p ! 0 = 0x01" using t l by (simp add: p)
  have u: "u32 (0x00 # take 3 (drop (Suc 0) p)) = Some (length p - 4)"
    using l n u32_take3 [of 1 p] by (simp add: lp) (simp add: p)
  have l5: "\<not> length d < 5" using l by simp
  note unf = parseClientHello_body_def r0 Option.bind.simps slice.sel simp_thms if_False
    slice_len_def l5 r1 Let_def pe
  note flat = index_flat reslice_flat reslice_from_flat p0 u u16_take2 case_prod_beta
  have l4: "4 \<le> length p" using l by (simp add: lp)
  have pne: "p \<noteq> []" using l4 by auto
  show ?thesis
  proof (cases "length p < 39")
    case True
    then show ?thesis
      using l4
      apply (simp only: unf)
      apply (simp add: flat fields_need_def Let_def add.assoc pne)
      done
  next
    case a: False
    show ?thesis
    proof (cases "length p < 39 + unat (p ! 38) + 2")
      case True
      then show ?thesis
        using a l4
        apply (simp only: unf)
        apply (simp add: flat fields_need_def Let_def add.assoc pne)
        done
    next
      case b: False
      let ?sid = "unat (p ! 38)"
      let ?cs = "unat (p ! (39 + ?sid)) * 256 + unat (p ! (39 + ?sid + 1))"
      show ?thesis
      proof (cases "length p < 39 + ?sid + 2 + ?cs + 1")
        case True
        then show ?thesis
          using a b l4
          apply (simp only: unf)
          apply (simp add: flat fields_need_def Let_def add.assoc pne)
          done
      next
        case c: False
        let ?cm = "unat (p ! (39 + ?sid + 2 + ?cs))"
        show ?thesis
        proof (cases "length p < 39 + ?sid + 2 + ?cs + 1 + ?cm + 2")
          case True
          then show ?thesis
            using a b c l4
            apply (simp only: unf)
            apply (simp add: flat fields_need_def Let_def add.assoc pne)
            done
        next
          case e: False
          then show ?thesis
            using a b c l4
            apply (simp only: unf)
            apply (simp add: flat fields_need_def Let_def decoded_def add.assoc pne)
            done
        qed
      qed
    qed
  qed
qed
lemma parse_cap_short:
  "slice_cap data < 3 \<Longrightarrow> parseClientHello data = (None, Some MalformedClientHello)"
  by (simp add: parseClientHello_def parseClientHello_body_def reslice_def)

lemma parse_wrong_magic:
  "3 \<le> slice_cap data \<Longrightarrow> take 3 (backing data) \<noteq> [0x16, 0x03, 0x01] \<Longrightarrow>
   parseClientHello data = (None, Some WrongMagic)"
  by (simp add: parseClientHello_def parseClientHello_body_def reslice_def)

lemma magic_reslice:
  "magic_ok data \<Longrightarrow> reslice data 0 3 = Some (Slice [0x16, 0x03, 0x01] (drop 3 (backing data)))"
  by (simp add: magic_ok_def reslice_def)

lemma parse_len_short:
  assumes "magic_ok data" and "slice_len data < 6"
  shows "parseClientHello data = (None, Some MalformedClientHello)"
proof (cases "slice_len data < 5")
  case True
  then show ?thesis
    by (simp add: parseClientHello_def parseClientHello_body_def magic_reslice [OF assms(1)])
next
  case False
  obtain d sp where data: "data = Slice d sp" by (cases data)
  have ld: "length d = 5" using False assms(2) by (simp add: data slice_len_def)
  have r0: "reslice (Slice d sp) 0 3 = Some (Slice [0x16, 0x03, 0x01] (drop 3 (backing (Slice d sp))))"
    using magic_reslice [OF assms(1)] by (simp add: data)
  have l5: "\<not> length d < 5" using ld by simp
  have r1: "reslice_from (Slice d sp) 5 = Some (Slice (drop 5 d) sp)"
    using ld by (simp add: reslice_from_def slice_len_def)
  have pe: "copy_slice (make_bytes (length d - 5)) (Slice (drop 5 d) sp) = Slice [] []"
    by (simp add: copy_slice_def make_bytes_def slice_len_def ld)
  show ?thesis
    apply (simp only: data parseClientHello_def parseClientHello_body_def r0 Option.bind.simps
        slice.sel simp_thms if_False slice_len_def l5 r1 Let_def pe)
    apply (simp add: index_flat)
    done
qed

lemma parse_not_hello:
  assumes "magic_ok data" and "6 \<le> slice_len data" and "vis data ! 5 \<noteq> 0x01"
  shows "parseClientHello data = (None, Some NotClientHello)"
proof -
  obtain d sp where data: "data = Slice d sp" by (cases data)
  obtain p where p: "p = drop 5 d" by simp
  have ld: "6 \<le> length d" using assms(2) by (simp add: data slice_len_def)
  have r0: "reslice (Slice d sp) 0 3 = Some (Slice [0x16, 0x03, 0x01] (drop 3 (backing (Slice d sp))))"
    using magic_reslice [OF assms(1)] by (simp add: data)
  have l5: "\<not> length d < 5" using ld by simp
  have r1: "reslice_from (Slice d sp) 5 = Some (Slice (drop 5 d) sp)"
    using ld by (simp add: reslice_from_def slice_len_def)
  have pe: "copy_slice (make_bytes (length d - 5)) (Slice (drop 5 d) sp) = Slice p []"
    using ld by (simp add: peeled_eq p)
  have pne: "p \<noteq> []" using ld by (simp add: p)
  have p0: "p ! 0 \<noteq> 0x01" using ld assms(3) by (simp add: p data)
  show ?thesis
    apply (simp only: data parseClientHello_def parseClientHello_body_def r0 Option.bind.simps
        slice.sel simp_thms if_False slice_len_def l5 r1 Let_def pe)
    apply (simp add: index_flat pne p0)
    done
qed

lemma parse_header_short:
  assumes "magic_ok data" and "6 \<le> slice_len data" and "vis data ! 5 = 0x01" and "slice_len data < 9"
  shows "parseClientHello data = (None, Some MalformedClientHello)"
proof -
  obtain d sp where data: "data = Slice d sp" by (cases data)
  obtain p where p: "p = drop 5 d" by simp
  have ld: "6 \<le> length d" "length d < 9" using assms(2,4) by (simp_all add: data slice_len_def)
  have r0: "reslice (Slice d sp) 0 3 = Some (Slice [0x16, 0x03, 0x01] (drop 3 (backing (Slice d sp))))"
    using magic_reslice [OF assms(1)] by (simp add: data)
  have l5: "\<not> length d < 5" using ld by simp
  have r1: "reslice_from (Slice d sp) 5 = Some (Slice (drop 5 d) sp)"
    using ld by (simp add: reslice_from_def slice_len_def)
  have pe: "copy_slice (make_bytes (length d - 5)) (Slice (drop 5 d) sp) = Slice p []"
    using ld by (simp add: peeled_eq p)
  have pne: "p \<noteq> []" using ld by (simp add: p)
  have lp: "length p < 4" using ld by (simp add: p)
  have p0: "p ! 0 = 0x01" using ld assms(3) by (simp add: p data)
  show ?thesis
    using lp
    apply (simp only: data parseClientHello_def parseClientHello_body_def r0 Option.bind.simps
        slice.sel simp_thms if_False slice_len_def l5 r1 Let_def pe)
    apply (simp add: index_flat reslice_flat pne p0)
    done
qed

lemma parse_length_mismatch:
  assumes "magic_ok data" and "9 \<le> slice_len data" and "vis data ! 5 = 0x01"
    and "unat (vis data ! 6) * 65536 + unat (vis data ! 7) * 256 + unat (vis data ! 8) \<noteq> slice_len data - 9"
  shows "parseClientHello data = (None, Some LengthMismatch)"
proof -
  obtain d sp where data: "data = Slice d sp" by (cases data)
  obtain p where p: "p = drop 5 d" by simp
  have ld: "9 \<le> length d" using assms(2) by (simp add: data slice_len_def)
  have r0: "reslice (Slice d sp) 0 3 = Some (Slice [0x16, 0x03, 0x01] (drop 3 (backing (Slice d sp))))"
    using magic_reslice [OF assms(1)] by (simp add: data)
  have l5: "\<not> length d < 5" using ld by simp
  have r1: "reslice_from (Slice d sp) 5 = Some (Slice (drop 5 d) sp)"
    using ld by (simp add: reslice_from_def slice_len_def)
  have pe: "copy_slice (make_bytes (length d - 5)) (Slice (drop 5 d) sp) = Slice p []"
    using ld by (simp add: peeled_eq p)
  have pne: "p \<noteq> []" using ld by (simp add: p)
  have lp: "4 \<le> length p" using ld by (simp add: p)
  have p0: "p ! 0 = 0x01" using ld assms(3) by (simp add: p data)
  obtain k where u: "u32 (0x00 # take 3 (drop (Suc 0) p)) = Some k" and k: "k \<noteq> length p - 4"
    using ld assms(4) u32_take3 [of 1 p] by (simp add: p data slice_len_def)
  show ?thesis
    using lp k
    apply (simp only: data parseClientHello_def parseClientHello_body_def r0 Option.bind.simps
        slice.sel simp_thms if_False slice_len_def l5 r1 Let_def pe)
    apply (simp add: index_flat reslice_flat reslice_from_flat pne p0 u)
    done
qed

lemma parse_header_ok:
  assumes "header_ok data"
  shows "parseClientHello data =
     (if length (drop 5 (vis data)) < fields_need (drop 5 (vis data)) then (None, Some MalformedClientHello)
      else (Some (decoded (drop 5 (vis data))),
            snd (parseExtensions (Slice (drop (fields_need (drop 5 (vis data))) (drop 5 (vis data))) []))))"
proof -
  obtain d sp where data: "data = Slice d sp" by (cases data)
  show ?thesis
    using assms body_on_peeled [of d sp "drop 5 d"]
    by (simp add: parseClientHello_def data header_ok_def slice_len_def)
qed

section \<open>Truncated and well-formed extension regions\<close>

lemma unat_byte_less: "unat (a :: byte) < 256"
  using unsigned_less [of a, where 'a = nat] by simp

lemma put_u16_unat: "put_u16 (unat (a :: byte) * 256 + unat (b :: byte)) = [a, b]"
proof -
  have a: "unat a < 256" and b: "unat b < 256" by (rule unat_byte_less)+
  have "unat a * 256 + unat b < 65536" using a b by simp
  then have "(unat a * 256 + unat b) mod 65536 div 256 = unat a"
    using b by simp
  moreover have "(unat a * 256 + unat b) mod 256 = unat b"
    using b by simp
  ultimately show ?thesis by (simp add: put_u16_def)
qed

lemma take4_drop:
  "k + 4 \<le> length v \<Longrightarrow> take 4 (drop k v) = [v ! k, v ! (k + 1), v ! (k + 2), v ! (k + 3)]"
  by (simp add: eval_nat_numeral take_Suc_conv_app_nth)

lemma loop_no_panic_encoded:
  "parseExtensions_loop (Slice v []) k m = (m', False) \<Longrightarrow> k \<le> length v \<Longrightarrow>
   \<exists>es. wf_exts es \<and> drop k v = encode_exts es"
proof (induction "Slice v []" k m arbitrary: m' rule: parseExtensions_loop.induct)
  case (1 pointer ret)
  show ?case
  proof (cases "pointer < length v")
    case False
    then have "drop pointer v = encode_exts []"
      using "1.prems"(2) by (simp add: encode_exts_Nil)
    moreover have "wf_exts []" by (simp add: wf_exts_def)
    ultimately show ?thesis by blast
  next
    case True
    note run = "1.prems"(1) [unfolded parseExtensions_loop.simps [of "Slice v []" pointer ret]]
    have lt: "pointer < slice_len (Slice v [])" using True by (simp add: slice_len_def)
    have b4: "pointer + 2 + 2 \<le> length v"
      using run lt by (auto simp: reslice_flat split: if_splits option.splits)
    define len where "len = unat (v ! (pointer + 2)) * 256 + unat (v ! (pointer + 2 + 1))"
    have r1: "reslice (Slice v []) pointer (pointer + 2) = Some (Slice (take 2 (drop pointer v)) (drop (pointer + 2) v))"
      using b4 by (simp add: reslice_flat)
    have r2: "reslice (Slice v []) (pointer + 2) (pointer + 2 + 2) = Some (Slice (take 2 (drop (pointer + 2) v)) (drop (pointer + 2 + 2) v))"
      using b4 by (simp add: reslice_flat)
    have u: "u16 (take 2 (drop (pointer + 2) v)) = Some len"
      using b4 by (simp add: u16_take2 len_def)
    have run': "(case reslice (Slice v []) (pointer + 2 + 2) (pointer + 2 + 2 + len) of
           None \<Rightarrow> (ret, True)
         | Some data \<Rightarrow>
             parseExtensions_loop (Slice v []) (pointer + 2 + 2 + len)
               (ret((vis (Slice (take 2 (drop pointer v)) (drop (pointer + 2) v)) ! 0,
                     vis (Slice (take 2 (drop pointer v)) (drop (pointer + 2) v)) ! 1) \<mapsto> data)))
         = (m', False)"
      using run by (simp only: lt if_True r1 r2 u option.case slice.sel)
    have b5: "pointer + 2 + 2 + len \<le> length v"
      using run' by (cases "pointer + 2 + 2 + len \<le> length v") (simp_all add: reslice_flat)
    have r3: "reslice (Slice v []) (pointer + 2 + 2) (pointer + 2 + 2 + len) = Some (Slice (take len (drop (pointer + 2 + 2) v)) (drop (pointer + 2 + 2 + len) v))"
      using b5 by (simp add: reslice_flat)
    have rec: "parseExtensions_loop (Slice v []) (pointer + 2 + 2 + len)
        (ret((vis (Slice (take 2 (drop pointer v)) (drop (pointer + 2) v)) ! 0,
              vis (Slice (take 2 (drop pointer v)) (drop (pointer + 2) v)) ! 1) \<mapsto>
              Slice (take len (drop (pointer + 2 + 2) v)) (drop (pointer + 2 + 2 + len) v))) = (m', False)"
      using run' by (simp only: r3 option.case)
    from "1.hyps" [OF lt r1 r2 _ r3 rec b5] u
    obtain es where wf: "wf_exts es" and es: "drop (pointer + 2 + 2 + len) v = encode_exts es"
      by auto
    define pl where "pl = take len (drop (pointer + 2 + 2) v)"
    define rest where "rest = drop (pointer + 2 + 2 + len) v"
    let ?e = "((v ! pointer, v ! (pointer + 1)), pl)"
    have lenb: "len < 65536"
      using unat_byte_less [of "v ! (pointer + 2)"] unat_byte_less [of "v ! (pointer + 2 + 1)"]
      by (simp add: len_def)
    have lpl: "length pl = len"
      using b5 by (simp add: pl_def)
    have hd4: "take 4 (drop pointer v) = [v ! pointer, v ! (pointer + 1)] @ put_u16 len"
      using b4 take4_drop [of pointer v] unfolding len_def put_u16_unat
      by (simp add: add.assoc eval_nat_numeral)
    have a4: "4 + pointer = pointer + 2 + 2"
      by simp
    have e4: "drop (pointer + 2 + 2) v = drop 4 (drop pointer v)"
      by (simp only: drop_drop a4)
    have split1: "drop pointer v = take 4 (drop pointer v) @ drop (pointer + 2 + 2) v"
      by (simp only: e4 append_take_drop_id)
    have al: "len + (pointer + 2 + 2) = pointer + 2 + 2 + len"
      by simp
    have "rest = drop len (drop (pointer + 2 + 2) v)"
      by (simp only: rest_def drop_drop al)
    then have split2: "drop (pointer + 2 + 2) v = pl @ rest"
      by (simp only: pl_def append_take_drop_id)
    have "drop pointer v = ([v ! pointer, v ! (pointer + 1)] @ put_u16 len) @ pl @ rest"
      by (subst split1) (simp only: hd4 split2)
    then have "drop pointer v = encode_exts (?e # es)"
      using es by (simp add: encode_exts_Cons encode_ext_def lpl rest_def)
    moreover have "wf_exts (?e # es)"
      using wf lenb lpl by (simp add: wf_exts_def)
    ultimately show ?thesis by blast
  qed
qed

lemma parseExtensions_err:
  "snd (parseExtensions (Slice r [])) =
     (if \<exists>es. wf_exts es \<and> r = encode_exts es then None else Some MalformedExtensions)"
proof (cases "parseExtensions_loop (Slice r []) 0 Map.empty")
  case (Pair m' b)
  show ?thesis
  proof (cases b)
    case False
    then have "\<exists>es. wf_exts es \<and> r = encode_exts es"
      using loop_no_panic_encoded [of r 0 Map.empty m'] Pair by simp
    then show ?thesis
      using Pair False by (simp add: parseExtensions_def)
  next
    case True
    have "\<not> (\<exists>es. wf_exts es \<and> r = encode_exts es)"
    proof
      assume "\<exists>es. wf_exts es \<and> r = encode_exts es"
      then obtain es where "wf_exts es" and "r = encode_exts es" by blast
      then show False
        using loop_encode [of es "[]" "[]" Map.empty] Pair True by simp
    qed
    then show ?thesis
      using Pair True by (simp add: parseExtensions_def)
  qed
qed

lemma parse_table:
  "parseClientHello data =
     (if slice_cap data < 3 then (None, Some MalformedClientHello)
      else if take 3 (backing data) \<noteq> [0x16, 0x03, 0x01] then (None, Some WrongMagic)
      else if slice_len data < 6 then (None, Some MalformedClientHello)
      else if vis data ! 5 \<noteq> 0x01 then (None, Some NotClientHello)
      else if slice_len data < 9 then (None, Some MalformedClientHello)
      else if unat (vis data ! 6) * 65536 + unat (vis data ! 7) * 256 + unat (vis data ! 8)
                \<noteq> slice_len data - 9
           then (None, Some LengthMismatch)
      else let p = drop 5 (vis data) in
        if length p < fields_need p then (None, Some MalformedClientHello)
        else (Some (decoded p),
              if \<exists>es. wf_exts es \<and> drop (fields_need p) p = encode_exts es then None
              else Some MalformedExtensions))"
proof (cases "slice_cap data < 3")
  case True
  then show ?thesis by (simp add: parse_cap_short)
next
  case c: False
  show ?thesis
  proof (cases "take 3 (backing data) = [0x16, 0x03, 0x01]")
    case False
    then show ?thesis using c by (simp add: parse_wrong_magic)
  next
    case True
    then have m: "magic_ok data" using c by (simp add: magic_ok_def)
    consider (a) "slice_len data < 6"
      | (b) "6 \<le> slice_len data" "vis data ! 5 \<noteq> 0x01"
      | (c) "6 \<le> slice_len data" "vis data ! 5 = 0x01" "slice_len data < 9"
      | (d) "9 \<le> slice_len data" "vis data ! 5 = 0x01"
            "unat (vis data ! 6) * 65536 + unat (vis data ! 7) * 256 + unat (vis data ! 8) \<noteq> slice_len data - 9"
      | (e) "header_ok data"
      using m unfolding header_ok_def by (meson not_less)
    then show ?thesis
    proof cases
      case a
      then show ?thesis using c True by (simp add: parse_len_short [OF m])
    next
      case b
      then show ?thesis using c True by (simp add: parse_not_hello [OF m])
    next
      case c
      then show ?thesis using \<open>\<not> slice_cap data < 3\<close> True by (simp add: parse_header_short [OF m])
    next
      case d
      then show ?thesis using c True by (simp add: parse_length_mismatch [OF m])
    next
      case e
      then show ?thesis
        using c True
        by (simp add: parse_header_ok [OF e] parseExtensions_err header_ok_def Let_def)
    qed
  qed
qed

section \<open>The decoder never panics\<close>

text \<open>
  Claim C1, amended. For every input, \<^verbatim>\<open>parseClientHello\<close> (with \<^verbatim>\<open>parseExtensions\<close>
  on the extensions region) returns a value and never panics; it never returns neither a
  ClientHello nor an error. The table gives the result for every input. Whenever a read of
  \<^verbatim>\<open>parseClientHello\<close> itself is out of range (fewer than 3 bytes of capacity for the
  record magic, fewer than 6 or 9 bytes for the header, or a handshake message shorter than
  its fixed fields and the declared lengths of session id, cipher suites and compression
  methods require), the result is the error "Malformed ClientHello" and no ClientHello.
  When the reads of \<^verbatim>\<open>parseClientHello\<close> succeed and the extensions region is not
  exactly a sequence of \<open>{type, length, payload}\<close> entries (a read of
  \<^verbatim>\<open>parseExtensions\<close> is out of range), the result is the ClientHello together with the
  different error "Malformed Extensions".
\<close>

theorem parseClientHello_decision_table:
  "parseClientHello data =
     (if slice_cap data < 3 then (None, Some MalformedClientHello)
      else if take 3 (backing data) \<noteq> [0x16, 0x03, 0x01] then (None, Some WrongMagic)
      else if slice_len data < 6 then (None, Some MalformedClientHello)
      else if vis data ! 5 \<noteq> 0x01 then (None, Some NotClientHello)
      else if slice_len data < 9 then (None, Some MalformedClientHello)
      else if unat (vis data ! 6) * 65536 + unat (vis data ! 7) * 256 + unat (vis data ! 8)
                \<noteq> slice_len data - 9
           then (None, Some LengthMismatch)
      else let p = drop 5 (vis data) in
        if length p < fields_need p then (None, Some MalformedClientHello)
        else (Some (decoded p),
              if \<exists>es. wf_exts es \<and> drop (fields_need p) p = encode_exts es then None
              else Some MalformedExtensions))
   \<and> parseClientHello data \<noteq> (None, None)"
proof -
  have "parseClientHello data \<noteq> (None, None)"
    by (subst parse_table) (simp add: Let_def)
  with parse_table [of data] show ?thesis by blast
qed

lemma fields_need_ge: "39 \<le> fields_need p"
  by (simp add: fields_need_def Let_def)

lemma parsed_decoded:
  assumes "parseClientHello data = (Some ch, e)"
  shows "ch = decoded (drop 5 (vis data)) \<and> fields_need (drop 5 (vis data)) \<le> length (drop 5 (vis data))"
  using assms parse_table [of data]
  by (auto simp: Let_def split: if_splits)

lemma parsed_random_len:
  assumes "parseClientHello data = (Some ch, e)"
  shows "length (vis (random' ch)) = 32"
proof -
  let ?p = "drop 5 (vis data)"
  have "ch = decoded ?p" and "fields_need ?p \<le> length ?p"
    using parsed_decoded [OF assms] by simp_all
  moreover have "39 \<le> fields_need ?p" by (rule fields_need_ge)
  ultimately show ?thesis
    by (simp add: decoded_def Let_def)
qed

lemma nth_after: "length xs = n \<Longrightarrow> (xs @ y # ys) ! n = y"
  by auto

lemma example_packet_parse:
  assumes small: "40 + length sid + length region < 256"
  shows "\<exists>ch. parseClientHello (example_packet sid region) = (Some ch, snd (parseExtensions (Slice region [])))
          \<and> vis (random' ch) = replicate 32 0xaa
          \<and> vis (sessionId ch) = sid
          \<and> extensions ch = fst (parseExtensions (Slice region []))"
proof -
  let ?n = "of_nat (40 + length sid + length region) :: byte"
  let ?sl = "of_nat (length sid) :: byte"
  let ?d = "vis (example_packet sid region)"
  define p where "p = drop 5 ?d"
  define pre where "pre = [0x01, 0x00, 0x00, ?n, 0x03, 0x03] @ replicate 32 (0xaa :: byte)"
  obtain a b where ab: "put_u16 (length region) = [a, b]" by (simp add: put_u16_def)
  have lpre: "length pre = 38" by (simp add: pre_def)
  have p: "p = pre @ ?sl # sid @ 0x00 # 0x00 # 0x00 # a # b # region"
    by (simp add: p_def pre_def example_packet_def ab)
  have lp: "length p = 44 + length sid + length region"
    by (simp add: p lpre)
  have un: "unat ?n = 40 + length sid + length region"
    using small by (rule unat_byte_of_nat)
  have "length sid < 256"
    using small by simp
  then have usl: "unat ?sl = length sid"
    by (rule unat_byte_of_nat)
  have p38: "p ! 38 = ?sl"
    unfolding p by (rule nth_after) (rule lpre)
  have p39: "p ! (39 + length sid) = 0x00"
    using nth_after [of "pre @ ?sl # sid" "39 + length sid" "0x00" "0x00 # 0x00 # a # b # region"]
    by (simp add: p lpre)
  have p40: "p ! (40 + length sid) = 0x00"
    using nth_after [of "pre @ ?sl # sid @ [0x00]" "40 + length sid" "0x00" "0x00 # a # b # region"]
    by (simp add: p lpre)
  have p41: "p ! (41 + length sid) = 0x00"
    using nth_after [of "pre @ ?sl # sid @ [0x00, 0x00]" "41 + length sid" "0x00" "a # b # region"]
    by (simp add: p lpre)
  have need: "fields_need p = 44 + length sid"
    by (simp add: fields_need_def Let_def lp p38 usl p39 p40 p41)
  have reg: "drop (44 + length sid) p = region"
    using drop_length_append [of "pre @ ?sl # sid @ [0x00, 0x00, 0x00, a, b]" region]
    by (simp add: p lpre)
  have rnd: "take 32 (drop 6 p) = replicate 32 0xaa"
    by (simp add: p pre_def)
  have sidv: "take (length sid) (drop 39 p) = sid"
    using drop_length_append [of "pre @ [?sl]" "sid @ 0x00 # 0x00 # 0x00 # a # b # region"]
    by (simp add: p lpre)
  have hdr: "header_ok (example_packet sid region)"
    using small by (simp add: header_ok_def magic_ok_def example_packet_def slice_cap_def backing_def
        slice_len_def un ab del: of_nat_add of_nat_numeral)
  have res: "parseClientHello (example_packet sid region) = (Some (decoded p), snd (parseExtensions (Slice region [])))"
    using parse_header_ok [OF hdr] by (simp add: p_def [symmetric] need lp reg)
  show ?thesis
    apply (rule exI [of _ "decoded p"])
    apply (simp add: res)
    apply (simp add: decoded_def Let_def p38 usl p39 p40 p41 rnd sidv)
    apply (simp add: reg)
    done
qed

lemma truncated_region:
  "parseExtensions (Slice [0x00, 0x33, 0x00, 0x26] []) = (Map.empty, Some MalformedExtensions)"
  by (simp add: parseExtensions_def parseExtensions_loop.simps [of _ 0] reslice_def slice_cap_def
      backing_def u16_def slice_len_def)

theorem parseClientHello_decision_table_witness:
  "parseClientHello (Slice [0x16, 0x03] []) = (None, Some MalformedClientHello)"
  using parseClientHello_decision_table [of "Slice [0x16, 0x03] []"]
  by (simp add: slice_cap_def)

text \<open>
  The claim as stated fails where the extensions region is truncated: the error is
  "Malformed Extensions", and it comes with a ClientHello.
\<close>

theorem parseClientHello_decision_table_counterexample:
  "fst (parseClientHello truncated_extension_packet) \<noteq> None
   \<and> snd (parseClientHello truncated_extension_packet) = Some MalformedExtensions
   \<and> snd (parseClientHello truncated_extension_packet) \<noteq> Some MalformedClientHello"
proof -
  have "40 + length ([] :: byte list) + length [0x00, 0x33, 0x00, 0x26 :: byte] < 256"
    by simp
  from example_packet_parse [OF this]
  show ?thesis
    by (auto simp: truncated_extension_packet_def truncated_region)
qed

section \<open>Key shares, payloads and attempts\<close>

lemma reslice_len: "reslice s lo hi = Some r \<Longrightarrow> length (vis r) = hi - lo"
  by (auto simp: reslice_def slice_cap_def backing_def split: if_splits)

lemma reslice_prefix:
  "n \<le> length (vis s) \<Longrightarrow> \<exists>sp. reslice s 0 n = Some (Slice (take n (vis s)) sp)"
  by (simp add: reslice_def slice_cap_def backing_def)

lemma parseKeyShare_loop_len:
  "parseKeyShare_loop input totalLen pointer = Some (r, None) \<Longrightarrow> length (vis r) = 32"
proof (induction input totalLen pointer rule: parseKeyShare_loop.induct)
  case (1 input totalLen pointer)
  from "1.prems" show ?case
    apply (subst (asm) parseKeyShare_loop.simps)
    apply (auto split: if_splits option.splits dest: reslice_len intro: "1.IH")
    done
qed

lemma parseKeyShare_len: "parseKeyShare input = (ks, None) \<Longrightarrow> length (vis ks) = 32"
  by (auto simp: parseKeyShare_def parseKeyShare_body_def split: option.splits Option.bind_splits
      dest: parseKeyShare_loop_len)

lemma parseKeyShare_nil: "parseKeyShare nil_slice = (nil_slice, Some MalformedKeyShare)"
  by (simp add: parseKeyShare_def parseKeyShare_body_def nil_slice_def reslice_def slice_cap_def)

lemma parseKeyShare_example:
  "parseKeyShare (Slice example_key_share sp) = (Slice (replicate 32 0xbb) sp, None)"
  by (simp add: parseKeyShare_def parseKeyShare_body_def example_key_share_def
      parseKeyShare_loop.simps [of _ _ 2] reslice_def slice_cap_def backing_def u16_def)

lemma unmarshalClientHello_unfold:
  assumes "length (vis (random' ch)) = 32"
  shows "unmarshalClientHello C ch pv =
     (case ecdh_Unmarshal C (vis (random' ch)) of
        None \<Rightarrow> Some (zero_authenticationInfo, Some ErrInvalidPubKey)
      | Some ephPub \<Rightarrow>
          (case parseKeyShare (ext_lookup (extensions ch) (0x00, 0x33)) of
             (keyShare, Some e) \<Rightarrow>
               Some (\<lparr> sharedSecret = ecdh_GenerateSharedSecret C pv ephPub,
                        nonce = take 12 (vis (random' ch)), ciphertextWithTag = [] \<rparr>, Some e)
           | (keyShare, None) \<Rightarrow>
               Some (\<lparr> sharedSecret = ecdh_GenerateSharedSecret C pv ephPub,
                        nonce = take 12 (vis (random' ch)),
                        ciphertextWithTag = vis (sessionId ch) @ vis keyShare \<rparr>,
                     if length (vis (sessionId ch)) + length (vis keyShare) \<noteq> 64
                     then Some (ErrCiphertextLength (length (vis (sessionId ch)) + length (vis keyShare)))
                     else None)))"
proof -
  obtain sp where r: "reslice (random' ch) 0 12 = Some (Slice (take 12 (vis (random' ch))) sp)"
    using reslice_prefix [of 12 "random' ch"] assms by auto
  show ?thesis
    by (simp add: unmarshalClientHello_def r Let_def zero_authenticationInfo_def
        split: option.splits prod.splits)
qed

lemma unmarshalClientHello_total:
  assumes "length (vis (random' ch)) = 32"
  shows "\<exists>ai e. unmarshalClientHello C ch pv = Some (ai, e)"
  by (simp add: unmarshalClientHello_unfold [OF assms] split: option.splits prod.splits)

lemma PrepareConnection_parsed:
  assumes "parseClientHello pkt = (Some ch, None)"
  shows "PrepareConnection C pkt sta conn =
     (if vis (random' ch) \<in> usedRandom sta then
        Some \<lparr> info = zero_ClientInfo, finisher = None, err = Some ErrReplay,
               sta' = sta\<lparr> usedRandom := insert (vis (random' ch)) (usedRandom sta) \<rparr>,
               steps = [Parse, RegisterRandom (vis (random' ch))] \<rparr>
      else
        (case unmarshalClientHello C ch (staticPv sta) of
           None \<Rightarrow> None
         | Some (ai, Some e) \<Rightarrow>
             Some \<lparr> info = zero_ClientInfo, finisher = None, err = Some e,
                    sta' = sta\<lparr> usedRandom := insert (vis (random' ch)) (usedRandom sta) \<rparr>,
                    steps = [Parse, RegisterRandom (vis (random' ch)), UnmarshalClientHello] \<rparr>
         | Some (ai, None) \<Rightarrow>
             (case touchStone C ai (Now sta) of
                (i, Some e) \<Rightarrow>
                  Some \<lparr> info = i, finisher = None, err = Some ErrNotCloak,
                         sta' = sta\<lparr> usedRandom := insert (vis (random' ch)) (usedRandom sta) \<rparr>,
                         steps = [Parse, RegisterRandom (vis (random' ch)),
                                  UnmarshalClientHello, TouchStone ai, LogDebug e] \<rparr>
              | (i, None) \<Rightarrow>
                  if ProxyBook sta (ProxyMethod i) = None then
                    Some \<lparr> info = i, finisher = None, err = Some ErrBadProxyMethod,
                           sta' = sta\<lparr> usedRandom := insert (vis (random' ch)) (usedRandom sta) \<rparr>,
                           steps = [Parse, RegisterRandom (vis (random' ch)),
                                    UnmarshalClientHello, TouchStone ai,
                                    ProxyBookLookup (ProxyMethod i)] \<rparr>
                  else
                    Some \<lparr> info = i,
                           finisher = Some (finisher_body C conn ch (sharedSecret ai)),
                           err = None,
                           sta' = sta\<lparr> usedRandom := insert (vis (random' ch)) (usedRandom sta) \<rparr>,
                           steps = [Parse, RegisterRandom (vis (random' ch)),
                                    UnmarshalClientHello, TouchStone ai,
                                    ProxyBookLookup (ProxyMethod i)] \<rparr>)))"
  by (simp add: PrepareConnection_def assms registerRandom_def split: option.splits prod.splits)

lemma PrepareConnection_not_parsed:
  assumes "snd (parseClientHello pkt) = Some e"
  shows "PrepareConnection C pkt sta conn =
     Some \<lparr> info = zero_ClientInfo, finisher = None, err = Some ErrBadClientHello,
            sta' = sta, steps = [Parse, LogDebug e] \<rparr>"
  using assms by (cases "parseClientHello pkt") (auto simp: PrepareConnection_def split: option.splits)

lemma PrepareConnection_any:
  "\<exists>r. PrepareConnection C pkt sta conn = Some r"
proof (cases "parseClientHello pkt")
  case (Pair c e)
  show ?thesis
  proof (cases e)
    case (Some x)
    then show ?thesis
      using PrepareConnection_not_parsed [of pkt x C sta conn] Pair by simp
  next
    case None
    then obtain ch where ch: "parseClientHello pkt = (Some ch, None)"
      using Pair parse_table [of pkt] by (cases c) (auto simp: Let_def split: if_splits)
    have r: "length (vis (random' ch)) = 32"
      by (rule parsed_random_len [OF ch])
    obtain ai e' where u: "unmarshalClientHello C ch (staticPv sta) = Some (ai, e')"
      using unmarshalClientHello_total [OF r] by blast
    show ?thesis
      by (simp add: PrepareConnection_parsed [OF ch] u split: option.splits prod.splits)
  qed
qed

lemma composeServerHello_shape:
  assumes "composeServerHello C R sid ss key = Some (Inr sh)"
  shows "\<exists>a b rest. length a = 12 \<and> length b = 20
           \<and> sh = ([0x02, 0x00, 0x00, 0x76, 0x03, 0x03] @ a @ b) @ 0x20 # vis sid @ rest"
proof -
  obtain ct n12 e20 e48 w where
    n12: "reslice (Slice (rand_Read (vis (make_bytes 12)) (rnd_nonce R)) []) 0 12 = Some n12"
    and e20: "reslice ct 0 20 = Some e20"
    and sh: "sh = concat ([[0x02], [0x00, 0x00, 0x76], [0x03, 0x03], vis n12 @ vis e20, [0x20], vis sid,
                [0xc0, 0x30], [0x00], [0x00, 0x2e]]
              @ [[0x00, 0x33, 0x00, 0x24, 0x00, 0x1d, 0x00, 0x20]
                  @ take 28 (vis (copy_slice (make_bytes 32) e48)) @ rand_Read (vis w) (rnd_pad R)]
              @ [[0x00, 0x2b, 0x00, 0x02, 0x03, 0x04]])"
    using assms
    by (auto simp: composeServerHello_def Let_def split: sum.splits Option.bind_splits)
  let ?rest = "[0xc0, 0x30, 0x00, 0x00, 0x2e]
      @ ([0x00, 0x33, 0x00, 0x24, 0x00, 0x1d, 0x00, 0x20]
          @ take 28 (vis (copy_slice (make_bytes 32) e48)) @ rand_Read (vis w) (rnd_pad R))
      @ [0x00, 0x2b, 0x00, 0x02, 0x03, 0x04]"
  have l: "length (vis n12) = 12" "length (vis e20) = 20"
    using reslice_len [OF n12] reslice_len [OF e20] by simp_all
  have "sh = ([0x02, 0x00, 0x00, 0x76, 0x03, 0x03] @ vis n12 @ vis e20) @ 0x20 # vis sid @ ?rest"
    unfolding sh by simp
  with l show ?thesis by blast
qed

lemma composeServerHello_sid:
  assumes "composeServerHello C R sid ss key = Some (Inr sh)"
  shows "sh ! 38 = 0x20 \<and> take (slice_len sid) (drop 39 sh) = vis sid"
proof -
  obtain a b rest where a: "length a = 12" and b: "length b = 20"
    and sh: "sh = ([0x02, 0x00, 0x00, 0x76, 0x03, 0x03] @ a @ b) @ 0x20 # vis sid @ rest"
    using composeServerHello_shape [OF assms] by blast
  have l: "length ([0x02, 0x00, 0x00, 0x76, 0x03, 0x03] @ a @ b) = 38"
    by (simp add: a b)
  have "sh ! 38 = 0x20"
    unfolding sh by (rule nth_after [OF l])
  moreover have "drop 39 sh = vis sid @ rest"
    using drop_length_append [of "([0x02, 0x00, 0x00, 0x76, 0x03, 0x03] @ a @ b) @ [0x20]" "vis sid @ rest"]
    by (simp add: sh a b)
  ultimately show ?thesis
    by (simp add: slice_len_def)
qed

lemma writes_finisher_body:
  assumes "finisher_body C conn ch secret R key = Some (e, st)"
  shows "writes st = (case composeReply C R ch secret key of Some (Inr reply) \<Rightarrow> [reply] | _ \<Rightarrow> [])"
  using assms by (auto simp: finisher_body_def split: option.splits sum.splits)

lemma length_example_region: "length example_region = 42"
  by (simp add: example_region_def encode_exts_def encode_ext_def example_key_share_def put_u16_def)

lemma example_region_parse:
  "\<exists>m sp. parseExtensions (Slice example_region []) = (m, None)
      \<and> ext_lookup m (0x00, 0x33) = Slice example_key_share sp"
proof -
  let ?es = "[((0x00, 0x33), example_key_share)] :: ((byte \<times> byte) \<times> byte list) list"
  have wf: "wf_exts ?es"
    by (simp add: wf_exts_def example_key_share_def)
  from loop_encode [OF wf, of "[]" "[]" Map.empty]
  obtain m where m: "parseExtensions_loop (Slice example_region []) 0 Map.empty = (m, False)"
    and eq: "map_option vis \<circ> m = map_of (rev ?es)"
    by (auto simp: example_region_def)
  have "map_option vis (m (0x00, 0x33)) = Some example_key_share"
    using fun_cong [OF eq, of "(0x00, 0x33)"] by simp
  then obtain s where s: "m (0x00, 0x33) = Some s" and v: "vis s = example_key_share"
    by (cases "m (0x00, 0x33)") auto
  have "ext_lookup m (0x00, 0x33) = Slice example_key_share (spare s)"
    using s v by (cases s) (simp add: ext_lookup_def)
  moreover have "parseExtensions (Slice example_region []) = (m, None)"
    by (simp add: parseExtensions_def m)
  ultimately show ?thesis by blast
qed

lemma example_parsed:
  assumes "length sid < 174"
  shows "\<exists>ch sp. parseClientHello (example_packet sid example_region) = (Some ch, None)
           \<and> vis (random' ch) = replicate 32 0xaa \<and> vis (sessionId ch) = sid
           \<and> ext_lookup (extensions ch) (0x00, 0x33) = Slice example_key_share sp"
proof -
  have "40 + length sid + length example_region < 256"
    using assms by (simp add: length_example_region)
  from example_packet_parse [OF this] example_region_parse
  show ?thesis by auto
qed

lemma example_parsed_noext:
  assumes "length sid < 174"
  shows "\<exists>ch. parseClientHello (example_packet sid []) = (Some ch, None)
           \<and> vis (random' ch) = replicate 32 0xaa \<and> vis (sessionId ch) = sid
           \<and> ext_lookup (extensions ch) (0x00, 0x33) = nil_slice"
proof -
  have e: "parseExtensions (Slice [] []) = (Map.empty, None)"
    by (simp add: parseExtensions_def parseExtensions_loop.simps [of _ 0] slice_len_def)
  have "40 + length sid + length ([] :: byte list) < 256"
    using assms by simp
  from example_packet_parse [OF this]
  show ?thesis by (auto simp: e ext_lookup_def)
qed

lemma example_unmarshal:
  assumes "vis (random' ch) = replicate 32 0xaa" and "vis (sessionId ch) = sid"
    and "ext_lookup (extensions ch) (0x00, 0x33) = Slice example_key_share sp"
  shows "unmarshalClientHello example_collaborators ch pv =
           Some (\<lparr> sharedSecret = replicate 32 0xaa, nonce = replicate 12 0xaa,
                    ciphertextWithTag = sid @ replicate 32 0xbb \<rparr>,
                 if length sid \<noteq> 32 then Some (ErrCiphertextLength (length sid + 32)) else None)"
proof -
  have r: "length (vis (random' ch)) = 32" by (simp add: assms(1))
  show ?thesis
    by (simp add: unmarshalClientHello_unfold [OF r] assms parseKeyShare_example
        example_collaborators_def)
qed

lemma example_run:
  "\<exists>r f. PrepareConnection example_collaborators (example_packet (replicate 32 0xcc) example_region)
          example_state example_conn = Some r
      \<and> finisher r = Some f \<and> err r = None \<and> ProxyMethod (info r) = ''shadowsocks''"
proof -
  obtain ch sp where p: "parseClientHello (example_packet (replicate 32 0xcc) example_region) = (Some ch, None)"
    and rnd: "vis (random' ch) = replicate 32 0xaa" and sid: "vis (sessionId ch) = replicate 32 0xcc"
    and ext: "ext_lookup (extensions ch) (0x00, 0x33) = Slice example_key_share sp"
    using example_parsed [of "replicate 32 0xcc"] by auto
  have um: "unmarshalClientHello example_collaborators ch (staticPv example_state) =
      Some (\<lparr> sharedSecret = replicate 32 0xaa, nonce = replicate 12 0xaa,
               ciphertextWithTag = replicate 32 0xcc @ replicate 32 0xbb \<rparr>, None)"
    using example_unmarshal [OF rnd sid ext] by simp
  show ?thesis
    unfolding PrepareConnection_parsed [OF p] um
    by (simp add: rnd example_state_def example_collaborators_def)
qed

section \<open>The authentication payload\<close>

text \<open>
  Claim C3. For every parsed ClientHello whose random field decodes to a public key and
  whose key\_share extension yields an x25519 value, \<^verbatim>\<open>unmarshalClientHello\<close> returns
  an authentication payload whose nonce is exactly the first 12 bytes of the random field
  and whose ciphertext-with-tag is exactly the session-id bytes followed by the key-share
  value; that value has 32 bytes.
\<close>

theorem unmarshalClientHello_payload:
  assumes "parseClientHello data = (Some ch, e)"
    and "ecdh_Unmarshal C (vis (random' ch)) = Some ephPub"
    and "parseKeyShare (ext_lookup (extensions ch) (0x00, 0x33)) = (keyShare, None)"
  shows "\<exists>ai err. unmarshalClientHello C ch pv = Some (ai, err)
           \<and> nonce ai = take 12 (vis (random' ch)) \<and> length (nonce ai) = 12
           \<and> ciphertextWithTag ai = vis (sessionId ch) @ vis keyShare
           \<and> length (vis keyShare) = 32"
proof -
  have r: "length (vis (random' ch)) = 32"
    by (rule parsed_random_len [OF assms(1)])
  have k: "length (vis keyShare) = 32"
    by (rule parseKeyShare_len [OF assms(3)])
  show ?thesis
    by (simp add: unmarshalClientHello_unfold [OF r] assms(2,3) r k)
qed

theorem unmarshalClientHello_payload_witness:
  "\<exists>ch ai e. parseClientHello (example_packet (replicate 32 0xcc) example_region) = (Some ch, None)
      \<and> unmarshalClientHello example_collaborators ch (replicate 32 0x01) = Some (ai, e)
      \<and> nonce ai = replicate 12 0xaa
      \<and> ciphertextWithTag ai = replicate 32 0xcc @ replicate 32 0xbb"
proof -
  obtain ch sp where p: "parseClientHello (example_packet (replicate 32 0xcc) example_region) = (Some ch, None)"
    and rnd: "vis (random' ch) = replicate 32 0xaa" and sid: "vis (sessionId ch) = replicate 32 0xcc"
    and ext: "ext_lookup (extensions ch) (0x00, 0x33) = Slice example_key_share sp"
    using example_parsed [of "replicate 32 0xcc"] by auto
  have u: "ecdh_Unmarshal example_collaborators (vis (random' ch)) = Some (replicate 32 0xaa)"
    by (simp add: rnd example_collaborators_def)
  have k: "parseKeyShare (ext_lookup (extensions ch) (0x00, 0x33)) = (Slice (replicate 32 0xbb) sp, None)"
    by (simp add: ext parseKeyShare_example)
  from unmarshalClientHello_payload [OF p u k, of "replicate 32 0x01"]
  show ?thesis
    using p by (auto simp: rnd sid)
qed

section \<open>Which error an attempt ends with\<close>

text \<open>
  Claim C5, amended. For every attempt that reaches the step after the replay check, a
  failure of the authentication service (\<^verbatim>\<open>touchStone\<close>) makes \<^verbatim>\<open>PrepareConnection\<close>
  return the generic error \<open>ErrNotCloak\<close>, and every error of
  \<^verbatim>\<open>unmarshalClientHello\<close> is returned as it is, with no finisher; in particular an
  error of the key-share extractor \<^verbatim>\<open>parseKeyShare\<close> is returned unchanged, not as
  \<open>ErrNotCloak\<close>.
\<close>

theorem PrepareConnection_error_collapse:
  assumes "parseClientHello pkt = (Some ch, None)" and "vis (random' ch) \<notin> usedRandom sta"
  shows "\<exists>r ai e. PrepareConnection C pkt sta conn = Some r
           \<and> unmarshalClientHello C ch (staticPv sta) = Some (ai, e)
           \<and> (e \<noteq> None \<longrightarrow> err r = e \<and> finisher r = None)
           \<and> (e = None \<and> snd (touchStone C ai (Now sta)) \<noteq> None \<longrightarrow>
                err r = Some ErrNotCloak \<and> finisher r = None)
           \<and> (\<forall>pub ks ke. ecdh_Unmarshal C (vis (random' ch)) = Some pub
                  \<and> parseKeyShare (ext_lookup (extensions ch) (0x00, 0x33)) = (ks, Some ke)
                \<longrightarrow> err r = Some ke)"
proof -
  have r: "length (vis (random' ch)) = 32"
    by (rule parsed_random_len [OF assms(1)])
  obtain ai e' where u: "unmarshalClientHello C ch (staticPv sta) = Some (ai, e')"
    using unmarshalClientHello_total [OF r] by blast
  have ks: "\<forall>pub ks ke. ecdh_Unmarshal C (vis (random' ch)) = Some pub
      \<and> parseKeyShare (ext_lookup (extensions ch) (0x00, 0x33)) = (ks, Some ke) \<longrightarrow> e' = Some ke"
    using u by (auto simp: unmarshalClientHello_unfold [OF r])
  show ?thesis
    using ks
    by (auto simp: PrepareConnection_parsed [OF assms(1)] u assms(2) split: option.splits prod.splits)
qed

theorem PrepareConnection_error_collapse_witness:
  "map_option err (PrepareConnection example_collaborators
      (example_packet (replicate 32 0xdd) example_region) example_state example_conn)
   = Some (Some ErrNotCloak)"
proof -
  obtain ch sp where p: "parseClientHello (example_packet (replicate 32 0xdd) example_region) = (Some ch, None)"
    and rnd: "vis (random' ch) = replicate 32 0xaa" and sid: "vis (sessionId ch) = replicate 32 0xdd"
    and ext: "ext_lookup (extensions ch) (0x00, 0x33) = Slice example_key_share sp"
    using example_parsed [of "replicate 32 0xdd"] by auto
  have fresh: "vis (random' ch) \<notin> usedRandom example_state"
    by (simp add: example_state_def)
  have um: "unmarshalClientHello example_collaborators ch (staticPv example_state) =
      Some (\<lparr> sharedSecret = replicate 32 0xaa, nonce = replicate 12 0xaa,
               ciphertextWithTag = replicate 32 0xdd @ replicate 32 0xbb \<rparr>, None)"
    using example_unmarshal [OF rnd sid ext] by simp
  have ts: "snd (touchStone example_collaborators
      \<lparr> sharedSecret = replicate 32 0xaa, nonce = replicate 12 0xaa,
        ciphertextWithTag = replicate 32 0xdd @ replicate 32 0xbb \<rparr> (Now example_state)) \<noteq> None"
    by (simp add: example_collaborators_def)
  from PrepareConnection_error_collapse [OF p fresh, of example_collaborators example_conn]
  show ?thesis
    using um ts by auto
qed

text \<open>
  The claim as stated fails for a failure of the key-share extractor: a well-formed
  ClientHello without a key\_share extension ends with the extractor's own error.
\<close>

theorem PrepareConnection_error_collapse_counterexample:
  "map_option err (PrepareConnection example_collaborators
      (example_packet (replicate 32 0xcc) []) example_state example_conn)
   = Some (Some MalformedKeyShare)"
proof -
  obtain ch where p: "parseClientHello (example_packet (replicate 32 0xcc) []) = (Some ch, None)"
    and rnd: "vis (random' ch) = replicate 32 0xaa"
    and ext: "ext_lookup (extensions ch) (0x00, 0x33) = nil_slice"
    using example_parsed_noext [of "replicate 32 0xcc"] by auto
  have r: "length (vis (random' ch)) = 32" by (simp add: rnd)
  show ?thesis
    by (simp add: PrepareConnection_parsed [OF p] unmarshalClientHello_unfold [OF r] rnd ext
        parseKeyShare_nil example_collaborators_def example_state_def)
qed

section \<open>The 64-byte check\<close>

text \<open>
  Claim C6, amended. For every parsed ClientHello whose session id is not 32 bytes long:
  if its random field decodes to a public key and its key\_share extension yields the
  32-byte x25519 value, \<^verbatim>\<open>unmarshalClientHello\<close> returns the ciphertext-length error
  (with the length, session-id length plus 32); and in every case \<^verbatim>\<open>PrepareConnection\<close>
  ends with an error and without a finisher, and the authentication service
  \<^verbatim>\<open>touchStone\<close> is not among the steps of the attempt.
\<close>

theorem unmarshalClientHello_ciphertext_length:
  assumes "parseClientHello pkt = (Some ch, None)" and "slice_len (sessionId ch) \<noteq> 32"
  shows "(\<forall>pub ks. ecdh_Unmarshal C (vis (random' ch)) = Some pub
             \<and> parseKeyShare (ext_lookup (extensions ch) (0x00, 0x33)) = (ks, None)
           \<longrightarrow> (\<exists>ai. unmarshalClientHello C ch pv =
                  Some (ai, Some (ErrCiphertextLength (slice_len (sessionId ch) + 32)))))
       \<and> (\<exists>r. PrepareConnection C pkt sta conn = Some r \<and> err r \<noteq> None \<and> finisher r = None
             \<and> (\<forall>ai. TouchStone ai \<notin> set (steps r)))"
proof -
  have r: "length (vis (random' ch)) = 32"
    by (rule parsed_random_len [OF assms(1)])
  have a: "\<forall>pub ks. ecdh_Unmarshal C (vis (random' ch)) = Some pub
             \<and> parseKeyShare (ext_lookup (extensions ch) (0x00, 0x33)) = (ks, None)
           \<longrightarrow> (\<exists>ai. unmarshalClientHello C ch pv =
                  Some (ai, Some (ErrCiphertextLength (slice_len (sessionId ch) + 32))))"
    using assms(2)
    by (auto simp: unmarshalClientHello_unfold [OF r] slice_len_def dest: parseKeyShare_len)
  obtain ai e' where u: "unmarshalClientHello C ch (staticPv sta) = Some (ai, e')"
    using unmarshalClientHello_total [OF r] by blast
  have "e' \<noteq> None"
    using u assms(2)
    by (auto simp: unmarshalClientHello_unfold [OF r] slice_len_def
        split: option.splits prod.splits if_splits dest: parseKeyShare_len)
  then have b: "\<exists>r. PrepareConnection C pkt sta conn = Some r \<and> err r \<noteq> None \<and> finisher r = None
             \<and> (\<forall>ai. TouchStone ai \<notin> set (steps r))"
    by (auto simp: PrepareConnection_parsed [OF assms(1)] u split: option.splits prod.splits)
  from a b show ?thesis by blast
qed

theorem unmarshalClientHello_ciphertext_length_witness:
  "\<exists>ch ai. parseClientHello (example_packet (replicate 31 0xcc) example_region) = (Some ch, None)
      \<and> unmarshalClientHello example_collaborators ch (replicate 32 0x01)
          = Some (ai, Some (ErrCiphertextLength 63))"
proof -
  obtain ch sp where p: "parseClientHello (example_packet (replicate 31 0xcc) example_region) = (Some ch, None)"
    and rnd: "vis (random' ch) = replicate 32 0xaa" and sid: "vis (sessionId ch) = replicate 31 0xcc"
    and ext: "ext_lookup (extensions ch) (0x00, 0x33) = Slice example_key_share sp"
    using example_parsed [of "replicate 31 0xcc"] by auto
  have n: "slice_len (sessionId ch) \<noteq> 32"
    by (simp add: slice_len_def sid)
  have u: "ecdh_Unmarshal example_collaborators (vis (random' ch)) = Some (replicate 32 0xaa)"
    by (simp add: rnd example_collaborators_def)
  have k: "parseKeyShare (ext_lookup (extensions ch) (0x00, 0x33)) = (Slice (replicate 32 0xbb) sp, None)"
    by (simp add: ext parseKeyShare_example)
  from unmarshalClientHello_ciphertext_length [OF p n, of example_collaborators "replicate 32 0x01"
      example_state example_conn] u k
  have "\<exists>ai. unmarshalClientHello example_collaborators ch (replicate 32 0x01) =
      Some (ai, Some (ErrCiphertextLength (slice_len (sessionId ch) + 32)))"
    by blast
  then show ?thesis
    using p by (auto simp: slice_len_def sid)
qed

text \<open>
  The claim as stated fails where the random field does not decode: with a 31-byte session
  id and a 32-byte key share the error is \<open>ErrInvalidPubKey\<close>, not a ciphertext-length
  error.
\<close>

theorem unmarshalClientHello_ciphertext_length_counterexample:
  "slice_len (sessionId (the (fst (parseClientHello (example_packet (replicate 31 0xcc) example_region))))) = 31
   \<and> snd (parseKeyShare (ext_lookup (extensions
        (the (fst (parseClientHello (example_packet (replicate 31 0xcc) example_region))))) (0x00, 0x33))) = None
   \<and> slice_len (fst (parseKeyShare (ext_lookup (extensions
        (the (fst (parseClientHello (example_packet (replicate 31 0xcc) example_region))))) (0x00, 0x33)))) = 32
   \<and> map_option snd (unmarshalClientHello
        (example_collaborators\<lparr> ecdh_Unmarshal := (\<lambda>r. None) \<rparr>)
        (the (fst (parseClientHello (example_packet (replicate 31 0xcc) example_region))))
        (replicate 32 0x01)) = Some (Some ErrInvalidPubKey)"
proof -
  obtain ch sp where p: "parseClientHello (example_packet (replicate 31 0xcc) example_region) = (Some ch, None)"
    and rnd: "vis (random' ch) = replicate 32 0xaa" and sid: "vis (sessionId ch) = replicate 31 0xcc"
    and ext: "ext_lookup (extensions ch) (0x00, 0x33) = Slice example_key_share sp"
    using example_parsed [of "replicate 31 0xcc"] by auto
  have r: "length (vis (random' ch)) = 32" by (simp add: rnd)
  show ?thesis
    by (simp add: p unmarshalClientHello_unfold [OF r] rnd sid ext parseKeyShare_example
        slice_len_def)
qed

section \<open>The Replay Guard comes first\<close>

text \<open>
  Claim C7. For every successfully parsed ClientHello, the first step of
  \<^verbatim>\<open>PrepareConnection\<close> after parsing registers the 32-byte random field in the Replay
  Guard, before \<^verbatim>\<open>unmarshalClientHello\<close> (key derivation), the authentication service
  or the proxy-method lookup; whatever the outcome of the attempt, the state it leaves
  behind holds the registered value (the registration is not rolled back); and when the
  value was already present the attempt ends with \<open>ErrReplay\<close>, no finisher, and no
  step other than parsing and registering.
\<close>

theorem PrepareConnection_replay_guard:
  assumes "parseClientHello pkt = (Some ch, None)"
  shows "\<exists>r. PrepareConnection C pkt sta conn = Some r
           \<and> take 2 (steps r) = [Parse, RegisterRandom (vis (random' ch))]
           \<and> length (vis (random' ch)) = 32
           \<and> usedRandom (sta' r) = insert (vis (random' ch)) (usedRandom sta)
           \<and> (vis (random' ch) \<in> usedRandom sta \<longrightarrow>
                err r = Some ErrReplay \<and> finisher r = None
                \<and> steps r = [Parse, RegisterRandom (vis (random' ch))])"
proof -
  have r: "length (vis (random' ch)) = 32"
    by (rule parsed_random_len [OF assms])
  obtain ai e' where u: "unmarshalClientHello C ch (staticPv sta) = Some (ai, e')"
    using unmarshalClientHello_total [OF r] by blast
  show ?thesis
    by (simp add: PrepareConnection_parsed [OF assms] u r split: option.splits prod.splits)
qed

theorem PrepareConnection_replay_guard_witness:
  "\<exists>r. PrepareConnection example_collaborators (example_packet (replicate 32 0xcc) example_region)
          (example_state\<lparr> usedRandom := {replicate 32 0xaa} \<rparr>) example_conn = Some r
      \<and> err r = Some ErrReplay
      \<and> steps r = [Parse, RegisterRandom (replicate 32 0xaa)]
      \<and> replicate 32 0xaa \<in> usedRandom (sta' r)"
proof -
  obtain ch sp where p: "parseClientHello (example_packet (replicate 32 0xcc) example_region) = (Some ch, None)"
    and rnd: "vis (random' ch) = replicate 32 0xaa"
    using example_parsed [of "replicate 32 0xcc"] by auto
  from PrepareConnection_replay_guard [OF p, of example_collaborators
      "example_state\<lparr> usedRandom := {replicate 32 0xaa} \<rparr>" example_conn]
  show ?thesis
    by (auto simp: rnd)
qed

section \<open>No write before the finisher\<close>

text \<open>
  Claim C8. \<^verbatim>\<open>PrepareConnection\<close> always returns, and on every path its steps contain
  no write to the transport; every path that ends with an error returns no finisher. A
  finisher is returned only without an error, it is the closure \<open>finisher_body\<close>, and
  the only bytes the closure writes are the reply of \<^verbatim>\<open>composeReply\<close>, once, when
  composing succeeds (nothing otherwise).
\<close>

theorem PrepareConnection_no_write:
  "\<exists>r. PrepareConnection C pkt sta conn = Some r
      \<and> writes (steps r) = []
      \<and> (err r \<noteq> None \<longrightarrow> finisher r = None)
      \<and> (\<forall>f. finisher r = Some f \<longrightarrow>
            err r = None \<and> (\<exists>ch secret. f = finisher_body C conn ch secret))
      \<and> (\<forall>ch secret R key e st. finisher_body C conn ch secret R key = Some (e, st) \<longrightarrow>
            writes st = (case composeReply C R ch secret key of
                           Some (Inr reply) \<Rightarrow> [reply] | _ \<Rightarrow> []))"
proof (cases "parseClientHello pkt")
  case (Pair c e)
  have fin: "\<forall>ch secret R key e st. finisher_body C conn ch secret R key = Some (e, st) \<longrightarrow>
            writes st = (case composeReply C R ch secret key of
                           Some (Inr reply) \<Rightarrow> [reply] | _ \<Rightarrow> [])"
    using writes_finisher_body by blast
  show ?thesis
  proof (cases e)
    case (Some x)
    then show ?thesis
      using PrepareConnection_not_parsed [of pkt x C sta conn] Pair fin by simp
  next
    case None
    then obtain ch where ch: "parseClientHello pkt = (Some ch, None)"
      using Pair parse_table [of pkt] by (cases c) (auto simp: Let_def split: if_splits)
    have r: "length (vis (random' ch)) = 32"
      by (rule parsed_random_len [OF ch])
    obtain ai e' where u: "unmarshalClientHello C ch (staticPv sta) = Some (ai, e')"
      using unmarshalClientHello_total [OF r] by blast
    have "\<exists>r. PrepareConnection C pkt sta conn = Some r
      \<and> writes (steps r) = []
      \<and> (err r \<noteq> None \<longrightarrow> finisher r = None)
      \<and> (\<forall>f. finisher r = Some f \<longrightarrow>
            err r = None \<and> (\<exists>ch secret. f = finisher_body C conn ch secret))"
      by (auto simp: PrepareConnection_parsed [OF ch] u split: option.splits prod.splits)
    with fin show ?thesis by blast
  qed
qed

theorem PrepareConnection_no_write_witness:
  "\<exists>r. PrepareConnection example_collaborators (example_packet (replicate 32 0xcc) example_region)
          example_state example_conn = Some r
      \<and> writes (steps r) = []"
  using PrepareConnection_no_write [of example_collaborators
      "example_packet (replicate 32 0xcc) example_region" example_state example_conn]
  by blast

section \<open>A finisher implies a 32-byte session id\<close>

text \<open>
  Claim C9. Whenever \<^verbatim>\<open>PrepareConnection\<close> returns a finisher, the packet parsed to a
  ClientHello whose session id has exactly 32 bytes, the finisher is the closure over that
  ClientHello, and every ServerHello that \<^verbatim>\<open>composeServerHello\<close> produces for it has
  the session-id-length byte 0x20 at offset 38 followed by the 32 echoed session-id bytes.
\<close>

theorem PrepareConnection_session_id_32:
  assumes "PrepareConnection C pkt sta conn = Some r" and "finisher r = Some f"
  shows "\<exists>ch secret. parseClientHello pkt = (Some ch, None)
           \<and> f = finisher_body C conn ch secret
           \<and> slice_len (sessionId ch) = 32
           \<and> (\<forall>R key sh. composeServerHello C R (sessionId ch) secret key = Some (Inr sh) \<longrightarrow>
                 sh ! 38 = 0x20 \<and> take 32 (drop 39 sh) = vis (sessionId ch))"
proof (cases "parseClientHello pkt")
  case (Pair c e)
  show ?thesis
  proof (cases e)
    case (Some x)
    then show ?thesis
      using PrepareConnection_not_parsed [of pkt x C sta conn] Pair assms by auto
  next
    case None
    then obtain ch where ch: "parseClientHello pkt = (Some ch, None)"
      using Pair parse_table [of pkt] by (cases c) (auto simp: Let_def split: if_splits)
    have rl: "length (vis (random' ch)) = 32"
      by (rule parsed_random_len [OF ch])
    obtain ai e' where u: "unmarshalClientHello C ch (staticPv sta) = Some (ai, e')"
      using unmarshalClientHello_total [OF rl] by blast
    have f: "f = finisher_body C conn ch (sharedSecret ai)" and e': "e' = None"
      using assms by (auto simp: PrepareConnection_parsed [OF ch] u split: option.splits prod.splits if_splits)
    have sid: "slice_len (sessionId ch) = 32"
      using u e'
      by (auto simp: unmarshalClientHello_unfold [OF rl] slice_len_def
          split: option.splits prod.splits if_splits dest: parseKeyShare_len)
    have "\<forall>R key sh. composeServerHello C R (sessionId ch) (sharedSecret ai) key = Some (Inr sh) \<longrightarrow>
                 sh ! 38 = 0x20 \<and> take 32 (drop 39 sh) = vis (sessionId ch)"
      using composeServerHello_sid [of C R "sessionId ch"] sid
      by (metis composeServerHello_sid)
    with ch f sid show ?thesis by blast
  qed
qed

theorem PrepareConnection_session_id_32_witness:
  "\<exists>r f ch. PrepareConnection example_collaborators (example_packet (replicate 32 0xcc) example_region)
          example_state example_conn = Some r
      \<and> finisher r = Some f
      \<and> parseClientHello (example_packet (replicate 32 0xcc) example_region) = (Some ch, None)
      \<and> slice_len (sessionId ch) = 32"
proof -
  obtain r f where run: "PrepareConnection example_collaborators
        (example_packet (replicate 32 0xcc) example_region) example_state example_conn = Some r"
    and fin: "finisher r = Some f"
    using example_run by blast
  from PrepareConnection_session_id_32 [OF run fin]
  show ?thesis
    using run fin by blast
qed

end
